theory Spec2Isabelle
  imports Main "HOL-Library.AList"
begin

section \<open>The batch job's arguments\<close>

text \<open>
  The namespace that \<^verbatim>\<open>parser.parse_args\<close> returns in \<^verbatim>\<open>__main__.main\<close>: one field per
  \<^verbatim>\<open>add_argument\<close>, with the defaults of the parser (\<^verbatim>\<open>None\<close> is \<open>None\<close>).
\<close>

record cli_args =
  repo_file_url :: string
  test_branch :: "string option"
  white_space_in :: "string list option"
  do_venv :: bool
  os :: "string option"
  connext :: bool
  force_ansi_color :: bool

text \<open>
  \<^verbatim>\<open>main\<close> adds four attributes to the namespace (lines 85 to 88); the packaging stage
  reads one more, \<^verbatim>\<open>args.isolated\<close>.
\<close>

record args = cli_args +
  workspace :: string
  sourcespace :: string
  buildspace :: string
  installspace :: string

record pkg_args = args +
  isolated :: bool

definition pip_dependencies :: "string list" where
  "pip_dependencies =
     [''nose'', ''pep8'', ''pyflakes'', ''flake8'', ''mock'', ''coverage'', ''EmPy'', ''vcstool'']"

subsection \<open>Strings\<close>

definition lower_char :: "char \<Rightarrow> char" where
  "lower_char c =
     (case map_of (zip ''ABCDEFGHIJKLMNOPQRSTUVWXYZ'' ''abcdefghijklmnopqrstuvwxyz'') c of
        None \<Rightarrow> c
      | Some l \<Rightarrow> l)"

text \<open>\<^verbatim>\<open>str.lower\<close> on the ASCII text that \<^verbatim>\<open>platform.platform()\<close> returns.\<close>

definition lower :: "string \<Rightarrow> string" where
  "lower s = map lower_char s"

definition startswith :: "string \<Rightarrow> string \<Rightarrow> bool" where
  "startswith s p = (take (length p) s = p)"

text \<open>\<^verbatim>\<open>sub in s\<close> on strings.\<close>

fun contains :: "string \<Rightarrow> string \<Rightarrow> bool" where
  "contains [] sub = (sub = [])"
| "contains (c # s) sub = (startswith (c # s) sub \<or> contains s sub)"

text \<open>\<^verbatim>\<open>'"%s"' % s\<close>\<close>

definition quoted :: "string \<Rightarrow> string" where
  "quoted s = [CHR 0x22] @ s @ [CHR 0x22]"

subsection \<open>Directory names (lines 84 to 88)\<close>

text \<open>\<^verbatim>\<open>args.white_space_in or []\<close>\<close>

definition or_empty :: "string list option \<Rightarrow> string list" where
  "or_empty x = (case x of None \<Rightarrow> [] | Some xs \<Rightarrow> xs)"

definition resolve_names :: "cli_args \<Rightarrow> args" where
  "resolve_names a =
     (let ws = or_empty (white_space_in a) in
      \<lparr>repo_file_url = repo_file_url a,
       test_branch = test_branch a,
       white_space_in = Some ws,
       do_venv = do_venv a,
       os = os a,
       connext = connext a,
       force_ansi_color = force_ansi_color a,
       workspace = (if ''workspace'' \<in> set ws then ''work space'' else ''workspace''),
       sourcespace = (if ''sourcespace'' \<in> set ws then ''source space'' else ''src''),
       buildspace = (if ''buildspace'' \<in> set ws then ''build space'' else ''build''),
       installspace = (if ''installspace'' \<in> set ws then ''install space'' else ''install'')\<rparr>)"

text \<open>The subdirectories that the \<^verbatim>\<open>--white-space-in\<close> option selects.\<close>

definition selected :: "cli_args \<Rightarrow> string set" where
  "selected a = (case white_space_in a of None \<Rightarrow> {} | Some xs \<Rightarrow> set xs)"

subsection \<open>The platform job (lines 90 to 102)\<close>

datatype platform_job = LinuxBatchJob | OSXBatchJob | WindowsBatchJob

text \<open>
  \<open>platform_name\<close> is \<^verbatim>\<open>platform.platform().lower()\<close>. The result is the namespace with
  \<^verbatim>\<open>args.os\<close> as the chosen branch sets it, and the job, \<open>None\<close> when no branch is taken
  (\<^verbatim>\<open>job = None\<close> at line 82 stays).
\<close>

definition select_job :: "string \<Rightarrow> args \<Rightarrow> args \<times> platform_job option" where
  "select_job platform_name a =
     (if os a = Some ''linux'' \<or> startswith platform_name ''linux''
        then (a\<lparr>os := Some ''linux''\<rparr>, Some LinuxBatchJob)
      else if os a = Some ''osx'' \<or> startswith platform_name ''darwin''
        then (a\<lparr>os := Some ''osx''\<rparr>, Some OSXBatchJob)
      else if os a = Some ''windows'' \<or> startswith platform_name ''windows''
        then (a\<lparr>os := Some ''windows''\<rparr>, Some WindowsBatchJob)
      else (a, None))"

section \<open>Files and directories\<close>

text \<open>
  A path is the list of its components; a working directory is the list from the root.
  A file carries its contents, a directory its entries by name.
\<close>

type_synonym path = "string list"

datatype node = File string | Dir "(string \<times> node) list"

fun lookup :: "node \<Rightarrow> path \<Rightarrow> node option" where
  "lookup n [] = Some n"
| "lookup (File _) (c # cs) = None"
| "lookup (Dir es) (c # cs) = (case map_of es c of None \<Rightarrow> None | Some m \<Rightarrow> lookup m cs)"

text \<open>\<open>put\<close> writes an entry into an existing directory; \<open>None\<close> when there is none.\<close>

fun put :: "node \<Rightarrow> path \<Rightarrow> node \<Rightarrow> node option" where
  "put n [] new = None"
| "put (File _) (c # cs) new = None"
| "put (Dir es) [c] new = Some (Dir (AList.update c new es))"
| "put (Dir es) (c # cs) new =
     (case map_of es c of
        None \<Rightarrow> None
      | Some m \<Rightarrow> (case put m cs new of
                    None \<Rightarrow> None
                  | Some m' \<Rightarrow> Some (Dir (AList.update c m' es))))"

fun unlink :: "node \<Rightarrow> path \<Rightarrow> node option" where
  "unlink n [] = None"
| "unlink (File _) (c # cs) = None"
| "unlink (Dir es) [c] =
     (case map_of es c of
        Some (File _) \<Rightarrow> Some (Dir (AList.delete c es))
      | _ \<Rightarrow> None)"
| "unlink (Dir es) (c # cs) =
     (case map_of es c of
        None \<Rightarrow> None
      | Some m \<Rightarrow> (case unlink m cs of
                    None \<Rightarrow> None
                  | Some m' \<Rightarrow> Some (Dir (AList.update c m' es))))"

fun fresh_dirs :: "path \<Rightarrow> node" where
  "fresh_dirs [] = Dir []"
| "fresh_dirs (c # cs) = Dir [(c, fresh_dirs cs)]"

text \<open>
  \<^verbatim>\<open>os.makedirs\<close>: the directory and the missing ones above it; \<open>None\<close> when the path
  exists already or runs through a file.
\<close>

fun makedirs :: "node \<Rightarrow> path \<Rightarrow> node option" where
  "makedirs (File _) p = None"
| "makedirs (Dir es) [] = None"
| "makedirs (Dir es) (c # cs) =
     (case map_of es c of
        None \<Rightarrow> Some (Dir (es @ [(c, fresh_dirs cs)]))
      | Some m \<Rightarrow> (case makedirs m cs of
                    None \<Rightarrow> None
                  | Some m' \<Rightarrow> Some (Dir (AList.update c m' es))))"

text \<open>\<^verbatim>\<open>os.path.join\<close> of plain names, with the host's separator.\<close>

fun join_with :: "char \<Rightarrow> string list \<Rightarrow> string" where
  "join_with s [] = []"
| "join_with s [c] = c"
| "join_with s (c # cs) = c @ [s] @ join_with s cs"

definition abs_string :: "char \<Rightarrow> path \<Rightarrow> string" where
  "abs_string s p = (if p = [] then [s] else concat (map ((#) s) p))"

section \<open>The state of a run\<close>

datatype hook_name = Pre | ShowEnv | SetupEnv

datatype archive_format = TarBz2 | Zip

datatype entry = FileEntry path string | DirEntry path

datatype exn =
    AttributeError | OSError | TypeError | ImportError string | RuntimeError string

datatype exit_arg = Code int | Message string

datatype abort = SystemExit exit_arg | Raised exn

text \<open>
  The status of the process: \<^verbatim>\<open>sys.exit\<close> with a number gives it, with a text gives 1, as
  an exception that nothing catches does.
\<close>

fun exit_status :: "abort \<Rightarrow> int" where
  "exit_status (SystemExit (Code n)) = n"
| "exit_status (SystemExit (Message m)) = 1"
| "exit_status (Raised e) = 1"

text \<open>
  What a run does to the outside, in order: a call of \<^verbatim>\<open>job.run\<close> (the run prefix in
  force, the command, \<^verbatim>\<open>shell\<close>, \<^verbatim>\<open>exit_on_error\<close>, and how the call ended: with the
  exit code it returned, or with the process ended or an exception raised), a call of one
  of the job's hooks, the clearing of the workspace, the remote debugger, and an archive
  written (format, file name, members). Terminal output (\<^verbatim>\<open>info\<close>, \<^verbatim>\<open>log\<close>, \<^verbatim>\<open>warn\<close>,
  \<^verbatim>\<open>print\<close>, \<^verbatim>\<open>force_color\<close>) is not recorded.
\<close>

datatype event =
    Ran "string list" "string list" bool bool "abort + int"
  | Hook hook_name platform_job
  | CleanedWorkspace path
  | SetTrace
  | WroteArchive archive_format string "entry list"

record state =
  trace :: "event list"
  fs :: node
  cwd :: path
  environ :: "(string \<times> string) list"
  run_prefix :: "string list"
  python :: string

text \<open>
  What the run takes from outside the sources at hand: the host
  (\<^verbatim>\<open>platform.platform()\<close>, \<^verbatim>\<open>sys.executable\<close>, \<^verbatim>\<open>os.sep\<close>); the job's \<^verbatim>\<open>run\<close>
  method (for a command, \<^verbatim>\<open>shell\<close> and \<^verbatim>\<open>exit_on_error\<close>: how the call ends, and the
  disk it leaves; the state tells which run prefix is in force); the job's hooks (a hook
  may end the process or raise); \<^verbatim>\<open>util.generated_venv_vars\<close>; and the bytes that
  \<^verbatim>\<open>tarfile\<close> and \<^verbatim>\<open>zipfile\<close> write for a list of members.
\<close>

record world =
  platform_platform :: string
  sys_executable :: string
  sep :: char
  run_method :: "string list \<Rightarrow> bool \<Rightarrow> bool \<Rightarrow> state \<Rightarrow> (abort + int) \<times> node"
  hook :: "hook_name \<Rightarrow> platform_job \<Rightarrow> state \<Rightarrow> abort option \<times> state"
  generated_venv_vars :: "string \<Rightarrow> string list \<times> string"
  archive_bytes :: "archive_format \<Rightarrow> entry list \<Rightarrow> string"

type_synonym 'a prog = "state \<Rightarrow> (abort + 'a) \<times> state"

definition returnP :: "'a \<Rightarrow> 'a prog" where
  "returnP x st = (Inr x, st)"

definition raiseP :: "abort \<Rightarrow> 'a prog" where
  "raiseP e st = (Inl e, st)"

text \<open>
  One statement after another: what follows runs on the value and in the state that the
  statement leaves, unless the statement raised or ended the process.
\<close>

fun and_then :: "(abort + 'a) \<times> state \<Rightarrow> ('a \<Rightarrow> 'b prog) \<Rightarrow> (abort + 'b) \<times> state" where
  "and_then (Inl e, st) f = (Inl e, st)"
| "and_then (Inr x, st) f = f x st"

definition bindP :: "'a prog \<Rightarrow> ('a \<Rightarrow> 'b prog) \<Rightarrow> 'b prog" where
  "bindP m f st = and_then (m st) f"

definition thenP :: "'a prog \<Rightarrow> 'b prog \<Rightarrow> 'b prog" where
  "thenP m n st = and_then (m st) (\<lambda>_. n)"

definition whenP :: "bool \<Rightarrow> unit prog \<Rightarrow> unit prog" where
  "whenP b m st = (if b then m st else (Inr (), st))"

fun steps :: "unit prog list \<Rightarrow> unit prog" where
  "steps [] st = (Inr (), st)"
| "steps (m # ms) st = thenP m (steps ms) st"

definition with_python :: "(string \<Rightarrow> 'a prog) \<Rightarrow> 'a prog" where
  "with_python f st = f (python st) st"

subsection \<open>Operating-system calls\<close>

definition modify_fs :: "(node \<Rightarrow> node option) \<Rightarrow> unit prog" where
  "modify_fs f st = (case f (fs st) of
                       None \<Rightarrow> (Inl (Raised OSError), st)
                     | Some n \<Rightarrow> (Inr (), st\<lparr>fs := n\<rparr>))"

definition os_path_exists :: "path \<Rightarrow> bool prog" where
  "os_path_exists p st = (Inr (lookup (fs st) (cwd st @ p) \<noteq> None), st)"

definition os_makedirs :: "path \<Rightarrow> unit prog" where
  "os_makedirs p st = modify_fs (\<lambda>n. makedirs n (cwd st @ p)) st"

definition os_remove :: "path \<Rightarrow> unit prog" where
  "os_remove p st = modify_fs (\<lambda>n. unlink n (cwd st @ p)) st"

definition os_listdir :: "path \<Rightarrow> string list prog" where
  "os_listdir p st = (case lookup (fs st) (cwd st @ p) of
                        Some (Dir es) \<Rightarrow> (Inr (map fst es), st)
                      | _ \<Rightarrow> (Inl (Raised OSError), st))"

text \<open>\<^verbatim>\<open>with open(p, 'w'): pass\<close>: the file is there and empty afterwards.\<close>

definition create_file :: "path \<Rightarrow> string \<Rightarrow> unit prog" where
  "create_file p content st =
     (case lookup (fs st) (cwd st @ p) of
        Some (Dir _) \<Rightarrow> (Inl (Raised OSError), st)
      | _ \<Rightarrow> modify_fs (\<lambda>n. put n (cwd st @ p) (File content)) st)"

text \<open>\<^verbatim>\<open>with open(p, 'r') as f: f.read()\<close>\<close>

definition read_file :: "path \<Rightarrow> string prog" where
  "read_file p st = (case lookup (fs st) (cwd st @ p) of
                       Some (File c) \<Rightarrow> (Inr c, st)
                     | _ \<Rightarrow> (Inl (Raised OSError), st))"

text \<open>\<^verbatim>\<open>os.environ[k] = os.environ.get(k, v)\<close> and \<^verbatim>\<open>os.environ[k] = v\<close>\<close>

definition setdefault_env :: "string \<Rightarrow> string \<Rightarrow> unit prog" where
  "setdefault_env k v st =
     (Inr (), st\<lparr>environ := AList.update k
                     (case map_of (environ st) k of None \<Rightarrow> v | Some old \<Rightarrow> old)
                     (environ st)\<rparr>)"

definition set_env :: "string \<Rightarrow> string \<Rightarrow> unit prog" where
  "set_env k v st = (Inr (), st\<lparr>environ := AList.update k v (environ st)\<rparr>)"

subsection \<open>The job and the helpers of \<^verbatim>\<open>util\<close>\<close>

text \<open>
  \<^verbatim>\<open>job.run(cmd, shell=..., exit_on_error=...)\<close>: the call is the world's; the run
  records it and goes on, or ends, as the call ended.
\<close>

definition job_run :: "world \<Rightarrow> string list \<Rightarrow> bool \<Rightarrow> bool \<Rightarrow> int prog" where
  "job_run w cmd shell exit_on_error st =
     (let (outcome, disk) = run_method w cmd shell exit_on_error st
      in (outcome,
          st\<lparr>trace := trace st @ [Ran (run_prefix st) cmd shell exit_on_error outcome],
             fs := disk\<rparr>))"

text \<open>
  Modelled from the spec: \<^verbatim>\<open>BatchJob.run\<close> (the job classes and \<^verbatim>\<open>util\<close> are not among the
  sources), as section 4.1 has it. The run prefix is put before the command; the command
  runs (\<open>exec\<close> gives its exit code and the disk it leaves); with exit-on-error a non-zero
  exit code ends the process with that code; without it the code goes back to the caller.
\<close>

definition batch_job_run ::
  "(string list \<Rightarrow> bool \<Rightarrow> state \<Rightarrow> int \<times> node) \<Rightarrow>
   string list \<Rightarrow> bool \<Rightarrow> bool \<Rightarrow> state \<Rightarrow> (abort + int) \<times> node"
where
  "batch_job_run exec cmd shell exit_on_error st =
     (let (ret, disk) = exec (run_prefix st @ cmd) shell st
      in (if exit_on_error \<and> ret \<noteq> 0 then Inl (SystemExit (Code ret)) else Inr ret, disk))"

text \<open>
  \<^verbatim>\<open>job.run(cmd)\<close> and \<^verbatim>\<open>job.run(cmd, shell=True)\<close> as statements; \<^verbatim>\<open>exit_on_error\<close> is
  on when the call does not give it (section 4.1).
\<close>

definition run_cmd :: "world \<Rightarrow> string list \<Rightarrow> unit prog" where
  "run_cmd w cmd = thenP (job_run w cmd False True) (returnP ())"

definition run_shell :: "world \<Rightarrow> string list \<Rightarrow> unit prog" where
  "run_shell w cmd = thenP (job_run w cmd True True) (returnP ())"

text \<open>
  Modelled from the spec: the constructor of a job class. The run prefix starts empty and
  the interpreter is the host's (section 3, ExecutionContext).
\<close>

definition new_batch_job :: "world \<Rightarrow> unit prog" where
  "new_batch_job w st = (Inr (), st\<lparr>run_prefix := [], python := sys_executable w\<rparr>)"

text \<open>
  Modelled from the spec: \<^verbatim>\<open>push_run\<close> and \<^verbatim>\<open>push_python\<close> replace the run prefix and the
  interpreter wholesale (section 4.2).
\<close>

definition push_run :: "string list \<Rightarrow> unit prog" where
  "push_run prefix st = (Inr (), st\<lparr>run_prefix := prefix\<rparr>)"

definition push_python :: "string \<Rightarrow> unit prog" where
  "push_python p st = (Inr (), st\<lparr>python := p\<rparr>)"

text \<open>
  A hook of the job (\<^verbatim>\<open>pre\<close>, \<^verbatim>\<open>show_env\<close>, \<^verbatim>\<open>setup_env\<close>): what it does is the world's;
  the run records the call and keeps its own working directory.
\<close>

definition call_hook :: "world \<Rightarrow> hook_name \<Rightarrow> platform_job \<Rightarrow> unit prog" where
  "call_hook w h j st =
     (let (ex, st1) = hook w h j st;
          st' = st1\<lparr>trace := trace st @ [Hook h j], cwd := cwd st\<rparr>
      in case ex of
           None \<Rightarrow> (Inr (), st')
         | Some e \<Rightarrow> (Inl e, st'))"

text \<open>
  Modelled from the spec: \<^verbatim>\<open>util.clean_workspace\<close> clears and recreates the workspace
  directory; what was in it is gone (section 4.4, WorkspacePrep).
\<close>

definition clean_workspace :: "string \<Rightarrow> unit prog" where
  "clean_workspace d st =
     (case put (fs st) (cwd st @ [d]) (Dir []) of
        None \<Rightarrow> (Inl (Raised OSError), st)
      | Some n \<Rightarrow> (Inr (), st\<lparr>trace := trace st @ [CleanedWorkspace (cwd st @ [d])],
                             fs := n\<rparr>))"

text \<open>
  Modelled from the spec: \<^verbatim>\<open>util.change_directory\<close>, the scoped directory change of
  section 4.2 (\<open>withDirectory\<close>): the current directory is changed, the body runs, and the
  prior directory is restored on every exit path.
\<close>

definition change_directory :: "path \<Rightarrow> 'a prog \<Rightarrow> 'a prog" where
  "change_directory d body st =
     (let prior = cwd st;
          (r, st') = body (st\<lparr>cwd := prior @ d\<rparr>)
      in (r, st'\<lparr>cwd := prior\<rparr>))"

text \<open>
  \<^verbatim>\<open>remote_pdb.set_trace()\<close>, a call into a package outside the repository: the statement
  after it runs once the debugger gives control back.
\<close>

definition set_trace :: "unit prog" where
  "set_trace st = (Inr (), st\<lparr>trace := trace st @ [SetTrace]\<rparr>)"

section \<open>The batch job: \<^verbatim>\<open>__main__.main\<close>\<close>

text \<open>Lines 169 to 171, and 42 to 44 of \<^verbatim>\<open>packaging.py\<close>.\<close>

definition ament_py :: "world \<Rightarrow> 'x args_scheme \<Rightarrow> string" where
  "ament_py w a =
     quoted (join_with (sep w)
       [''.'', sourcespace a, ''ament'', ''ament_tools'', ''scripts'', ''ament.py''])"

text \<open>Lines 122 to 127.\<close>

definition prereq_cmd :: "world \<Rightarrow> string list" where
  "prereq_cmd w = [sys_executable w, ''-m'', ''pip'', ''install'', ''-U'', ''virtualenv'']"

definition prereq_install :: "world \<Rightarrow> args \<Rightarrow> unit prog" where
  "prereq_install w a = whenP (os a \<noteq> Some ''linux'') (run_cmd w (prereq_cmd w))"

text \<open>Lines 131 to 137.\<close>

definition activate_venv :: "world \<Rightarrow> platform_job \<Rightarrow> unit prog" where
  "activate_venv w j st =
     (let venv_path = abs_string (sep w) (cwd st @ [''venv'']);
          (venv, venv_python) = generated_venv_vars w venv_path
      in steps [push_run venv, push_python venv_python, call_hook w ShowEnv j] st)"

definition enter_venv :: "world \<Rightarrow> platform_job \<Rightarrow> unit prog" where
  "enter_venv w j =
     thenP (run_cmd w [sys_executable w, ''-m'', ''virtualenv'', ''-p'', sys_executable w, ''venv''])
       (activate_venv w j)"

text \<open>Lines 138 to 144.\<close>

definition toolchain_update :: "world \<Rightarrow> unit prog" where
  "toolchain_update w =
     steps
       [with_python (\<lambda>py. run_cmd w [py, ''-m'', ''pip'', ''install'', ''-U'', ''pip'', ''setuptools'']),
        with_python (\<lambda>py. run_shell w
          [py, ''-c'', quoted ''import setuptools; print(setuptools.__version__)'']),
        with_python (\<lambda>py. run_cmd w [py, ''-m'', ''pip'', ''--version''])]"

text \<open>Line 146.\<close>

definition dependency_cmd :: "string \<Rightarrow> string list" where
  "dependency_cmd py = [py, ''-m'', ''pip'', ''install'', ''-U''] @ pip_dependencies"

definition dependency_install :: "world \<Rightarrow> unit prog" where
  "dependency_install w = with_python (\<lambda>py. run_cmd w (dependency_cmd py))"

text \<open>Line 148.\<close>

definition fetch_cmd :: "args \<Rightarrow> string list" where
  "fetch_cmd a = [''curl'', ''-sk'', repo_file_url a, ''-o'', ''ros2.repos'']"

definition manifest_fetch :: "world \<Rightarrow> args \<Rightarrow> unit prog" where
  "manifest_fetch w a = run_cmd w (fetch_cmd a)"

text \<open>Lines 151 and 152.\<close>

definition show_manifest :: "unit prog" where
  "show_manifest = thenP (read_file [''ros2.repos'']) (returnP ())"

text \<open>Lines 154 to 156.\<close>

definition checkout_cmd :: "args \<Rightarrow> string list" where
  "checkout_cmd a = [''vcs'', ''import'', quoted (sourcespace a), ''--input'', ''ros2.repos'']"

definition source_checkout :: "world \<Rightarrow> args \<Rightarrow> unit prog" where
  "source_checkout w a =
     thenP (bindP (os_path_exists [sourcespace a])
              (\<lambda>there. whenP (\<not> there) (os_makedirs [sourcespace a])))
       (run_shell w (checkout_cmd a))"

text \<open>Lines 158 to 164.\<close>

definition branch_override :: "world \<Rightarrow> args \<Rightarrow> unit prog" where
  "branch_override w a =
     (case test_branch a of
        None \<Rightarrow> returnP ()
      | Some b \<Rightarrow> thenP (job_run w [''vcs'', ''custom'', ''.'', ''--args'', ''checkout'', b] False False)
                  (returnP ()))"

text \<open>Line 166.\<close>

definition revision_log :: "world \<Rightarrow> unit prog" where
  "revision_log w = run_cmd w [''vcs'', ''log'', ''-l1'', ''src'']"

text \<open>Lines 173 to 202: the build, the tests, their results, and \<^verbatim>\<open>return 0\<close>.\<close>

definition build_cmd :: "world \<Rightarrow> args \<Rightarrow> string \<Rightarrow> string list" where
  "build_cmd w a py =
     [py, ''-u'', ament_py w a, ''build'', ''--build-tests'',
      ''--build-space'', quoted (buildspace a),
      ''--install-space'', quoted (installspace a),
      quoted (sourcespace a)]"

definition test_cmd :: "world \<Rightarrow> args \<Rightarrow> string \<Rightarrow> string list" where
  "test_cmd w a py =
     [py, ''-u'', ament_py w a, ''test'',
      ''--build-space'', quoted (buildspace a),
      ''--install-space'', quoted (installspace a),
      ''--skip-build'', ''--skip-install'',
      quoted (sourcespace a)]"

definition test_results_cmd :: "world \<Rightarrow> args \<Rightarrow> string \<Rightarrow> string list" where
  "test_results_cmd w a py = [py, ''-u'', ament_py w a, ''test_results'', quoted (buildspace a)]"

definition build_test_collect :: "world \<Rightarrow> args \<Rightarrow> int prog" where
  "build_test_collect w a =
     bindP (with_python (\<lambda>py. job_run w (build_cmd w a py) False False)) (\<lambda>ret_build.
     thenP (whenP (ret_build \<noteq> 0) set_trace)
    (bindP (with_python (\<lambda>py. job_run w (test_cmd w a py) False False)) (\<lambda>ret_test.
     bindP (with_python (\<lambda>py. job_run w (test_results_cmd w a py) False False)) (\<lambda>ret_test_results.
     returnP 0))))"

text \<open>Lines 129 to 202: the body of \<^verbatim>\<open>with change_directory(args.workspace)\<close>.\<close>

definition in_workspace :: "world \<Rightarrow> args \<Rightarrow> platform_job \<Rightarrow> int prog" where
  "in_workspace w a j =
     thenP (steps
       [whenP (do_venv a) (enter_venv w j),
        toolchain_update w,
        dependency_install w,
        manifest_fetch w a,
        show_manifest,
        source_checkout w a,
        branch_override w a,
        revision_log w,
        call_hook w SetupEnv j])
       (build_test_collect w a)"

text \<open>
  \<^verbatim>\<open>main\<close> after \<^verbatim>\<open>parse_args\<close>. Where \<^verbatim>\<open>job\<close> is still \<^verbatim>\<open>None\<close>, \<^verbatim>\<open>job.pre()\<close> at
  line 118 raises \<^verbatim>\<open>AttributeError\<close>.
\<close>

definition main :: "world \<Rightarrow> cli_args \<Rightarrow> int prog" where
  "main w cli =
     (let (a, job) = select_job (lower (platform_platform w)) (resolve_names cli) in
      thenP (case job of None \<Rightarrow> returnP () | Some j \<Rightarrow> new_batch_job w)
        (if do_venv a \<and> os a = Some ''windows''
         then raiseP (SystemExit (Message ''--do-venv is not supported on windows''))
         else
           thenP (steps
             [setdefault_env ''TERM'' ''xterm-256color'',
              whenP (os a = Some ''windows'') (set_env ''ConEmuANSI'' ''ON''),
              clean_workspace (workspace a)])
             (case job of
                None \<Rightarrow> raiseP (Raised AttributeError)
              | Some j \<Rightarrow>
                  thenP (steps
                    [call_hook w Pre j,
                     call_hook w ShowEnv j,
                     prereq_install w a])
                    (change_directory [workspace a] (in_workspace w a j)))))"

section \<open>The packaging stage: \<^verbatim>\<open>packaging.build_and_package\<close>\<close>

text \<open>
  The job's \<^verbatim>\<open>run\<close> and \<^verbatim>\<open>python\<close> are in the state, so the function takes the namespace
  only. Lines 33 to 40: the marker is written when the bridge's directory exists.
\<close>

definition ros1_bridge_path :: "pkg_args \<Rightarrow> path" where
  "ros1_bridge_path a = [sourcespace a, ''ros2'', ''ros1_bridge'']"

definition ros1_bridge_ignore_marker :: "pkg_args \<Rightarrow> path" where
  "ros1_bridge_ignore_marker a = ros1_bridge_path a @ [''AMENT_IGNORE'']"

definition mask_bridge :: "pkg_args \<Rightarrow> path option prog" where
  "mask_bridge a =
     bindP (os_path_exists (ros1_bridge_path a)) (\<lambda>there.
       if there
       then thenP (create_file (ros1_bridge_ignore_marker a) [])
              (returnP (Some (ros1_bridge_ignore_marker a)))
       else returnP None)"

text \<open>Lines 42 to 55.\<close>

definition main_build_cmd :: "world \<Rightarrow> pkg_args \<Rightarrow> string \<Rightarrow> string list" where
  "main_build_cmd w a py =
     [py, ''-u'', ament_py w a, ''build'',
      ''--build-space'', quoted (buildspace a),
      ''--install-space'', quoted (installspace a),
      quoted (sourcespace a)]
     @ (if isolated a then [''--isolated''] else [])
     @ (if os a \<noteq> Some ''windows''
        then [''--cmake-args'', ''-DCMAKE_BUILD_TYPE=RelWithDebInfo''] else [])"

definition main_build :: "world \<Rightarrow> pkg_args \<Rightarrow> unit prog" where
  "main_build w a = with_python (\<lambda>py. run_cmd w (main_build_cmd w a py))"

text \<open>Lines 57 and 58.\<close>

definition unmask_bridge :: "path option \<Rightarrow> unit prog" where
  "unmask_bridge marker = (case marker of None \<Rightarrow> returnP () | Some p \<Rightarrow> os_remove p)"

text \<open>Lines 33 to 58.\<close>

definition masked_build :: "world \<Rightarrow> pkg_args \<Rightarrow> unit prog" where
  "masked_build w a =
     bindP (mask_bridge a) (\<lambda>marker. thenP (main_build w a) (unmask_bridge marker))"

text \<open>Lines 62 to 73.\<close>

definition bridge_build :: "world \<Rightarrow> pkg_args \<Rightarrow> unit prog" where
  "bridge_build w a =
     whenP (os a = Some ''linux'' \<or> os a = Some ''osx'')
       (with_python (\<lambda>py. run_cmd w
          ([py, ''-u'', ament_py w a, ''build'',
            ''--build-space'', quoted (buildspace a),
            ''--install-space'', quoted (installspace a),
            ''--only'', ''ros1_bridge'',
            quoted (sourcespace a)]
           @ (if isolated a then [''--isolated''] else [])
           @ [''--cmake-args'', ''-DCMAKE_BUILD_TYPE=RelWithDebInfo'', ''--make-flags'', ''-j1''])))"

text \<open>Lines 76 to 83.\<close>

definition unwanted :: "string \<Rightarrow> bool" where
  "unwanted filename =
     (contains filename ''__rmw_'' \<or> startswith filename ''simple_bridge'' \<or>
      startswith filename ''static_bridge'')"

fun remove_each :: "path \<Rightarrow> string list \<Rightarrow> unit prog" where
  "remove_each d [] = returnP ()"
| "remove_each d (filename # rest) =
     thenP (whenP (unwanted filename) (os_remove (d @ [filename]))) (remove_each d rest)"

definition remove_unwanted :: "pkg_args \<Rightarrow> unit prog" where
  "remove_unwanted a =
     bindP (os_listdir [installspace a, ''bin'']) (remove_each [installspace a, ''bin''])"

subsection \<open>The archive (lines 85 to 112)\<close>

fun is_dir :: "node \<Rightarrow> bool" where
  "is_dir (Dir _) = True"
| "is_dir (File _) = False"

text \<open>
  \<^verbatim>\<open>os.walk(top)\<close>: for the directory and, top down, each directory below it, its name,
  the names of its subdirectories and the names of its files. Nothing for what is not a
  directory.
\<close>

fun os_walk :: "path \<Rightarrow> node \<Rightarrow> (path \<times> string list \<times> string list) list"
  and walk_entries :: "path \<Rightarrow> (string \<times> node) list \<Rightarrow> (path \<times> string list \<times> string list) list"
where
  "os_walk d (File c) = []"
| "os_walk d (Dir es) =
     (d, map fst (filter (\<lambda>e. is_dir (snd e)) es), map fst (filter (\<lambda>e. \<not> is_dir (snd e)) es))
     # walk_entries d es"
| "walk_entries d [] = []"
| "walk_entries d ((n, m) # es) = os_walk (d @ [n]) m @ walk_entries d es"

fun common_prefix :: "path \<Rightarrow> path \<Rightarrow> nat" where
  "common_prefix (x # xs) (y # ys) = (if x = y then Suc (common_prefix xs ys) else 0)"
| "common_prefix xs ys = 0"

text \<open>\<^verbatim>\<open>os.path.relpath(p, start=start)\<close> for two paths from the same directory.\<close>

definition relpath :: "path \<Rightarrow> path \<Rightarrow> path" where
  "relpath p start =
     (let i = common_prefix start p;
          rel = replicate (length start - i) ''..'' @ drop i p
      in if rel = [] then [''.''] else rel)"

text \<open>\<^verbatim>\<open>os.path.normpath\<close> of a relative path, one component after the other.\<close>

definition norm_step :: "path \<Rightarrow> string \<Rightarrow> path" where
  "norm_step acc c =
     (if c = [] \<or> c = ''.'' then acc
      else if c \<noteq> ''..'' \<or> acc = [] \<or> last acc = ''..'' then acc @ [c]
      else butlast acc)"

definition normpath :: "path \<Rightarrow> path" where
  "normpath p = foldl norm_step [] p"

text \<open>
  \<^verbatim>\<open>ZipFile.write(filename, arcname)\<close>: the member is a directory or a file with its
  contents, under the normalised \<^verbatim>\<open>arcname\<close>; \<open>None\<close> when \<^verbatim>\<open>filename\<close> does not exist.
  \<open>disk\<close> is the file system and \<open>here\<close> the working directory.
\<close>

definition zf_write :: "node \<Rightarrow> path \<Rightarrow> path \<Rightarrow> path \<Rightarrow> entry option" where
  "zf_write disk here filename arcname =
     (case lookup disk (here @ filename) of
        None \<Rightarrow> None
      | Some (File c) \<Rightarrow> Some (FileEntry (normpath arcname) c)
      | Some (Dir _) \<Rightarrow> Some (DirEntry (normpath arcname)))"

text \<open>Lines 103 to 109: the members written for one step of the walk.\<close>

definition zip_step ::
  "node \<Rightarrow> path \<Rightarrow> string \<Rightarrow> string \<Rightarrow> path \<times> string list \<times> string list \<Rightarrow> entry option list"
where
  "zip_step disk here folder_name inst step =
     (case step of (dirname, subdirs, files) \<Rightarrow>
        zf_write disk here dirname (folder_name # relpath dirname [inst])
        # map (\<lambda>filename. zf_write disk here (dirname @ [filename])
                 (folder_name # relpath dirname [inst] @ [filename])) files)"

text \<open>Lines 102 to 109: the members of the zip archive, \<open>None\<close> when a write fails.\<close>

definition zip_members :: "node \<Rightarrow> path \<Rightarrow> string \<Rightarrow> string \<Rightarrow> entry list option" where
  "zip_members disk here folder_name inst =
     those (concat (map (zip_step disk here folder_name inst)
       (case lookup disk (here @ [inst]) of
          None \<Rightarrow> []
        | Some t \<Rightarrow> os_walk [inst] t)))"

text \<open>
  \<^verbatim>\<open>TarFile.add(name, arcname)\<close>: the member itself and, for a directory, its entries
  under \<^verbatim>\<open>arcname\<close>, recursively. (The library goes through each directory in sorted
  order; the order of the members is the directory's here.)
\<close>

fun tar_add :: "node \<Rightarrow> path \<Rightarrow> entry list"
  and tar_add_entries :: "(string \<times> node) list \<Rightarrow> path \<Rightarrow> entry list"
where
  "tar_add (File c) arcname = [FileEntry arcname c]"
| "tar_add (Dir es) arcname = DirEntry arcname # tar_add_entries es arcname"
| "tar_add_entries [] arcname = []"
| "tar_add_entries ((n, m) # es) arcname = tar_add m (arcname @ [n]) @ tar_add_entries es arcname"

text \<open>
  Opening the archive for writing leaves an archive without members; closing it leaves
  the archive with the members written.
\<close>

definition open_archive :: "world \<Rightarrow> archive_format \<Rightarrow> string \<Rightarrow> unit prog" where
  "open_archive w fmt archive_path = create_file [archive_path] (archive_bytes w fmt [])"

definition record_archive :: "archive_format \<Rightarrow> string \<Rightarrow> entry list \<Rightarrow> unit prog" where
  "record_archive fmt archive_path members st =
     (Inr (), st\<lparr>trace := trace st @ [WroteArchive fmt archive_path members]\<rparr>)"

definition close_archive :: "world \<Rightarrow> archive_format \<Rightarrow> string \<Rightarrow> entry list \<Rightarrow> unit prog" where
  "close_archive w fmt archive_path members =
     thenP (create_file [archive_path] (archive_bytes w fmt members))
       (record_archive fmt archive_path members)"

text \<open>Lines 89 and 90.\<close>

definition add_tar :: "world \<Rightarrow> pkg_args \<Rightarrow> string \<Rightarrow> string \<Rightarrow> unit prog" where
  "add_tar w a archive_path folder_name st =
     (case lookup (fs st) (cwd st @ [installspace a]) of
        None \<Rightarrow> (Inl (Raised OSError), st)
      | Some t \<Rightarrow> close_archive w TarBz2 archive_path (tar_add t [folder_name]) st)"

definition write_tar :: "world \<Rightarrow> pkg_args \<Rightarrow> string \<Rightarrow> string \<Rightarrow> unit prog" where
  "write_tar w a archive_path folder_name =
     thenP (open_archive w TarBz2 archive_path) (add_tar w a archive_path folder_name)"

text \<open>Lines 101 to 109.\<close>

definition walk_zip :: "world \<Rightarrow> pkg_args \<Rightarrow> string \<Rightarrow> string \<Rightarrow> unit prog" where
  "walk_zip w a archive_path folder_name st =
     (case zip_members (fs st) (cwd st) folder_name (installspace a) of
        None \<Rightarrow> (Inl (Raised OSError), st)
      | Some members \<Rightarrow> close_archive w Zip archive_path members st)"

definition write_zip :: "world \<Rightarrow> pkg_args \<Rightarrow> string \<Rightarrow> string \<Rightarrow> unit prog" where
  "write_zip w a archive_path folder_name =
     thenP (open_archive w Zip archive_path) (walk_zip w a archive_path folder_name)"

text \<open>
  \<^verbatim>\<open>shutil.copy(src, dst)\<close>, \<open>src\<close> from the root and \<open>dst\<close> from the working directory:
  into \<open>dst\<close> when it is a directory, onto it otherwise.
\<close>

definition shutil_copy :: "path \<Rightarrow> path \<Rightarrow> unit prog" where
  "shutil_copy src dst st =
     (case lookup (fs st) src of
        Some (File c) \<Rightarrow>
          (case lookup (fs st) (cwd st @ dst) of
             Some (Dir _) \<Rightarrow> modify_fs (\<lambda>n. put n (cwd st @ dst @ [last src]) (File c)) st
           | _ \<Rightarrow> modify_fs (\<lambda>n. put n (cwd st @ dst) (File c)) st)
      | _ \<Rightarrow> (Inl (Raised OSError), st))"

text \<open>Lines 94 to 100.\<close>

definition opencv_libdir :: path where
  "opencv_libdir = [''c:'', ''opencv'', ''build'', ''x64'', ''vc14'', ''bin'']"

definition copy_opencv_dll :: "pkg_args \<Rightarrow> string \<Rightarrow> unit prog" where
  "copy_opencv_dll a lib =
     steps
       [shutil_copy (opencv_libdir @ [lib @ ''2412.dll'']) [installspace a, ''bin'', lib @ ''2411.dll''],
        shutil_copy (opencv_libdir @ [lib @ ''2412.dll'']) [installspace a, ''bin'', lib @ ''2412.dll'']]"

definition copy_opencv_dlls :: "pkg_args \<Rightarrow> unit prog" where
  "copy_opencv_dlls a = steps (map (copy_opencv_dll a) [''opencv_core'', ''opencv_highgui''])"

text \<open>
  Lines 86 to 111. \<^verbatim>\<open>'ros2-' + args.os\<close> raises \<^verbatim>\<open>TypeError\<close> when \<^verbatim>\<open>args.os\<close> is
  \<^verbatim>\<open>None\<close>.
\<close>

definition create_archive :: "world \<Rightarrow> pkg_args \<Rightarrow> unit prog" where
  "create_archive w a =
     (case os a of
        None \<Rightarrow> raiseP (Raised TypeError)
      | Some name \<Rightarrow>
          (let folder_name = ''ros2-'' @ name in
           if name = ''linux'' \<or> name = ''osx''
             then write_tar w a (''ros2-package-'' @ name @ ''.tar.bz2'') folder_name
           else if name = ''windows''
             then thenP (copy_opencv_dlls a) (write_zip w a ''ros2-package-windows.zip'' folder_name)
           else raiseP (Raised (RuntimeError (''Unsupported operating system: '' @ name)))))"

definition build_and_package :: "world \<Rightarrow> pkg_args \<Rightarrow> int prog" where
  "build_and_package w a =
     thenP (steps
       [masked_build w a,
        bridge_build w a,
        remove_unwanted a,
        create_archive w a])
       (returnP 0)"

subsection \<open>The packaging entry point\<close>

text \<open>
  The names that \<^verbatim>\<open>ros2_batch_job/__main__.py\<close> binds at its top level: the four modules
  and the seven names of \<^verbatim>\<open>util\<close> it imports, \<^verbatim>\<open>pip_dependencies\<close> and \<^verbatim>\<open>main\<close>, beside
  the attributes every module has.
\<close>

definition main_module_names :: "string list" where
  "main_module_names =
     [''__name__'', ''__doc__'', ''__package__'', ''__loader__'', ''__spec__'', ''__file__'',
      ''__cached__'', ''__builtins__'',
      ''argparse'', ''os'', ''platform'', ''sys'',
      ''change_directory'', ''clean_workspace'', ''force_color'', ''generated_venv_vars'',
      ''info'', ''log'', ''UnbufferedIO'',
      ''pip_dependencies'', ''main'']"

text \<open>\<^verbatim>\<open>from module import name\<close>, for a module that is not a package.\<close>

definition import_from :: "string list \<Rightarrow> string \<Rightarrow> unit prog" where
  "import_from names name st =
     (if name \<in> set names then (Inr (), st) else (Inl (Raised (ImportError name)), st))"

text \<open>Lines 21 and 22 of \<^verbatim>\<open>packaging.py\<close>.\<close>

definition packaging_imports :: "unit prog" where
  "packaging_imports =
     steps [import_from main_module_names ''get_args'', import_from main_module_names ''run'']"

text \<open>
  \<^verbatim>\<open>packaging.main\<close>, reached through the module's imports. \<open>get_args\<close> and \<open>run\<close> stand
  for what the two imported names would be bound to.
\<close>

definition packaging_main ::
  "world \<Rightarrow> (string list \<Rightarrow> pkg_args prog) \<Rightarrow> (pkg_args \<Rightarrow> (pkg_args \<Rightarrow> int prog) \<Rightarrow> int prog)
   \<Rightarrow> string list \<Rightarrow> int prog"
where
  "packaging_main w get_args run sysargv =
     thenP packaging_imports
       (bindP (get_args sysargv) (\<lambda>a. run a (build_and_package w)))"

section \<open>What an archive holds\<close>

text \<open>
  A name that a directory entry can have; a tree whose directories hold each name once;
  the files of a tree (path from its root, contents) and its directories; the same for
  the members of an archive; and the archive's name and format as the specification has
  them.
\<close>

definition valid_name :: "string \<Rightarrow> bool" where
  "valid_name n = (n \<noteq> [] \<and> n \<noteq> ''.'' \<and> n \<noteq> ''..'')"

fun wf_tree :: "node \<Rightarrow> bool" and wf_entries :: "(string \<times> node) list \<Rightarrow> bool" where
  "wf_tree (File c) = True"
| "wf_tree (Dir es) = (distinct (map fst es) \<and> wf_entries es)"
| "wf_entries [] = True"
| "wf_entries ((n, m) # es) = (valid_name n \<and> wf_tree m \<and> wf_entries es)"

fun files_of :: "node \<Rightarrow> (path \<times> string) list"
  and files_of_entries :: "(string \<times> node) list \<Rightarrow> (path \<times> string) list" where
  "files_of (File c) = [([], c)]"
| "files_of (Dir es) = files_of_entries es"
| "files_of_entries [] = []"
| "files_of_entries ((n, m) # es) = map (\<lambda>(p, c). (n # p, c)) (files_of m) @ files_of_entries es"

fun dirs_of :: "node \<Rightarrow> path list"
  and dirs_of_entries :: "(string \<times> node) list \<Rightarrow> path list" where
  "dirs_of (File c) = []"
| "dirs_of (Dir es) = [] # dirs_of_entries es"
| "dirs_of_entries [] = []"
| "dirs_of_entries ((n, m) # es) = map ((#) n) (dirs_of m) @ dirs_of_entries es"

fun file_members :: "entry list \<Rightarrow> (path \<times> string) list" where
  "file_members [] = []"
| "file_members (FileEntry p c # ms) = (p, c) # file_members ms"
| "file_members (DirEntry p # ms) = file_members ms"

fun dir_members :: "entry list \<Rightarrow> path list" where
  "dir_members [] = []"
| "dir_members (FileEntry p c # ms) = dir_members ms"
| "dir_members (DirEntry p # ms) = p # dir_members ms"

fun file_content :: "node \<Rightarrow> string" where
  "file_content (File c) = c"
| "file_content (Dir es) = []"

definition spec_archive_name :: "string \<Rightarrow> string" where
  "spec_archive_name name =
     ''ros2-package-'' @ name @ (if name = ''windows'' then ''.zip'' else ''.tar.bz2'')"

definition spec_archive_format :: "string \<Rightarrow> archive_format" where
  "spec_archive_format name = (if name = ''windows'' then Zip else TarBz2)"

definition quiet :: "'a prog \<Rightarrow> bool" where
  "quiet m = (\<forall>st. trace (snd (m st)) = trace st \<and> cwd (snd (m st)) = cwd st)"

section \<open>What a run leaves in the trace\<close>

text \<open>
  \<open>emits m Q\<close>: whatever the state, \<open>m\<close> only adds events to the trace, and \<open>Q\<close> holds of
  its result and the events it added; \<open>traces\<close> is the same for a property of how the
  program ended. A property is \<open>sequential\<close> when it holds of no events and of two runs
  one after the other. The other definitions say what the properties below are about:
  the namespace as \<^verbatim>\<open>main\<close> resolves it, the events that run a given command, the calls
  of \<^verbatim>\<open>job.run\<close> that ended the process, the commands of the four fail-fast stages, the
  exit code behind the outcome of a call, and the outcomes the specification allows.
\<close>

definition emits :: "'a prog \<Rightarrow> ((abort + 'a) \<Rightarrow> event list \<Rightarrow> bool) \<Rightarrow> bool" where
  "emits m Q = (\<forall>st. \<exists>new. trace (snd (m st)) = trace st @ new \<and> Q (fst (m st)) new)"

definition failure :: "abort + 'a \<Rightarrow> abort option" where
  "failure r = (case r of Inl e \<Rightarrow> Some e | Inr x \<Rightarrow> None)"

definition traces :: "'a prog \<Rightarrow> (abort option \<Rightarrow> event list \<Rightarrow> bool) \<Rightarrow> bool" where
  "traces m Q = emits m (\<lambda>r. Q (failure r))"

definition sequential :: "(abort option \<Rightarrow> event list \<Rightarrow> bool) \<Rightarrow> bool" where
  "sequential Q = ((\<forall>r. Q r []) \<and> (\<forall>r new new'. Q None new \<longrightarrow> Q r new' \<longrightarrow> Q r (new @ new')))"

definition only :: "(event \<Rightarrow> bool) \<Rightarrow> abort option \<Rightarrow> event list \<Rightarrow> bool" where
  "only E r new = list_all E new"

fun ended_by :: "event \<Rightarrow> abort option" where
  "ended_by (Ran p cmd sh eoe outcome) = failure outcome"
| "ended_by e = None"

definition fatal_last :: "abort option \<Rightarrow> event list \<Rightarrow> bool" where
  "fatal_last r new =
     (case r of
        None \<Rightarrow> list_all (\<lambda>e. ended_by e = None) new
      | Some a \<Rightarrow> list_all (\<lambda>e. ended_by e = None) (butlast new) \<and>
                  (new = [] \<or> ended_by (last new) = None \<or> ended_by (last new) = Some a))"

definition args_of_run :: "world \<Rightarrow> cli_args \<Rightarrow> args" where
  "args_of_run w cli = fst (select_job (lower (platform_platform w)) (resolve_names cli))"

fun ran :: "string list \<Rightarrow> event \<Rightarrow> bool" where
  "ran cmd (Ran p cmd' sh eoe c) = (cmd' = cmd)"
| "ran cmd e = False"

definition ran_failed :: "string list \<Rightarrow> event \<Rightarrow> bool" where
  "ran_failed cmd e = (ran cmd e \<and> ended_by e \<noteq> None)"

definition fatal_stage_cmd :: "world \<Rightarrow> args \<Rightarrow> string list \<Rightarrow> bool" where
  "fatal_stage_cmd w a cmd =
     (cmd = prereq_cmd w \<or> (\<exists>py. cmd = dependency_cmd py) \<or> cmd = fetch_cmd a \<or>
      cmd = checkout_cmd a)"

fun stage_fail_fast :: "world \<Rightarrow> args \<Rightarrow> event \<Rightarrow> bool" where
  "stage_fail_fast w a (Ran p cmd sh eoe c) = (eoe \<or> \<not> fatal_stage_cmd w a cmd)"
| "stage_fail_fast w a e = True"

definition fetch_guards_checkout :: "args \<Rightarrow> abort option \<Rightarrow> event list \<Rightarrow> bool" where
  "fetch_guards_checkout a r new =
     (\<not> list_ex (ran_failed (fetch_cmd a)) new \<or> \<not> list_ex (ran (checkout_cmd a)) new)"

fun exit_code :: "abort + int \<Rightarrow> int option" where
  "exit_code (Inr c) = Some c"
| "exit_code (Inl (SystemExit (Code c))) = Some c"
| "exit_code (Inl e) = None"

fun as_specified :: "event \<Rightarrow> bool" where
  "as_specified (Ran p cmd sh eoe (Inr c)) = (\<not> eoe \<or> c = 0)"
| "as_specified (Ran p cmd sh eoe (Inl e)) = (eoe \<and> (\<exists>c. c \<noteq> 0 \<and> e = SystemExit (Code c)))"
| "as_specified e = True"


section \<open>Example runs\<close>

text \<open>
  A host on which every command and every hook succeeds; a command leaves the manifest
  \<^verbatim>\<open>ros2.repos\<close> in the working directory. Here and below \<^verbatim>\<open>job.run\<close> is the
  specification's.
\<close>

definition obliging_world :: "string \<Rightarrow> world" where
  "obliging_world host =
     \<lparr>platform_platform = host, sys_executable = ''python3'', sep = CHR ''/'',
      run_method = batch_job_run (\<lambda>cmd shell st.
        (0, case put (fs st) (cwd st @ [''ros2.repos'']) (File ''repositories'') of
              None \<Rightarrow> fs st
            | Some n \<Rightarrow> n)),
      hook = (\<lambda>h j st. (None, st)),
      generated_venv_vars = (\<lambda>p. ([''venv''], p)),
      archive_bytes = (\<lambda>fmt members. [])\<rparr>"

definition plain_cli :: cli_args where
  "plain_cli =
     \<lparr>repo_file_url = ''https://example.org/ros2.repos'', test_branch = None,
      white_space_in = None, do_venv = False, os = None, connext = False,
      force_ansi_color = False\<rparr>"

definition start :: state where
  "start =
     \<lparr>trace = [], fs = Dir [(''workspace'', Dir [(''old'', File ''stale'')])], cwd = [],
      environ = [], run_prefix = [], python = []\<rparr>"

text \<open>
  A host on which every command returns 1 and leaves the disk as it was, and a packaging
  run on Linux in a workspace that holds the bridge's sources and an install tree.
\<close>

definition failing_world :: world where
  "failing_world =
     \<lparr>platform_platform = ''Linux-5.4.0-42-generic-x86_64-with-Ubuntu-20.04-focal'',
      sys_executable = ''python3'', sep = CHR ''/'',
      run_method = batch_job_run (\<lambda>cmd shell st. (1, fs st)),
      hook = (\<lambda>h j st. (None, st)),
      generated_venv_vars = (\<lambda>p. ([''venv''], p)),
      archive_bytes = (\<lambda>fmt members. [])\<rparr>"


definition pkg_linux :: pkg_args where
  "pkg_linux =
     \<lparr>repo_file_url = ''https://example.org/ros2.repos'', test_branch = None,
      white_space_in = Some [], do_venv = False, os = Some ''linux'', connext = False,
      force_ansi_color = False, workspace = ''workspace'', sourcespace = ''src'',
      buildspace = ''build'', installspace = ''install'', isolated = False\<rparr>"

definition install_tree :: node where
  "install_tree =
     Dir [(''bin'', Dir [(''talker'', File ''elf''), (''talker__rmw_opensplice'', File ''elf'')]),
          (''setup.sh'', File ''source'')]"

definition pkg_start :: state where
  "pkg_start =
     \<lparr>trace = [],
      fs = Dir [(''c:'', Dir [(''opencv'', Dir [(''build'', Dir [(''x64'', Dir [(''vc14'',
                  Dir [(''bin'', Dir [(''opencv_core2412.dll'', File ''core''),
                                     (''opencv_highgui2412.dll'', File ''highgui'')])])])])])]),
                (''workspace'',
                 Dir [(''src'', Dir [(''ros2'', Dir [(''ros1_bridge'', Dir [(''package.xml'', File ''bridge'')])])]),
                      (''install'', install_tree)])],
      cwd = [''workspace''], environ = [], run_prefix = [], python = ''python3''\<rparr>"

definition windows_tree :: node where
  "windows_tree =
     Dir [(''bin'', Dir [(''talker'', File ''elf''), (''talker__rmw_opensplice'', File ''elf''),
                        (''opencv_core2411.dll'', File ''core''),
                        (''opencv_core2412.dll'', File ''core''),
                        (''opencv_highgui2411.dll'', File ''highgui''),
                        (''opencv_highgui2412.dll'', File ''highgui'')]),
          (''setup.sh'', File ''source'')]"

text \<open>A Linux host on which \<^verbatim>\<open>curl\<close> returns 22 and every other command 0.\<close>

definition fetch_failing_world :: world where
  "fetch_failing_world =
     \<lparr>platform_platform = ''Linux-5.4.0-42-generic-x86_64-with-Ubuntu-20.04-focal'',
      sys_executable = ''python3'', sep = CHR ''/'',
      run_method = batch_job_run (\<lambda>cmd shell st. (if ''curl'' \<in> set cmd then 22 else 0, fs st)),
      hook = (\<lambda>h j st. (None, st)),
      generated_venv_vars = (\<lambda>p. ([''venv''], p)),
      archive_bytes = (\<lambda>fmt members. [])\<rparr>"

section \<open>Properties\<close>

lemmas prog_defs =
  bindP_def thenP_def whenP_def returnP_def raiseP_def with_python_def

lemmas os_defs =
  modify_fs_def os_path_exists_def os_makedirs_def os_remove_def os_listdir_def
  create_file_def read_file_def setdefault_env_def set_env_def

lemmas job_defs =
  job_run_def run_cmd_def run_shell_def new_batch_job_def push_run_def push_python_def
  call_hook_def clean_workspace_def change_directory_def set_trace_def

lemmas main_defs =
  main_def in_workspace_def prereq_install_def prereq_cmd_def enter_venv_def activate_venv_def
  toolchain_update_def dependency_install_def dependency_cmd_def manifest_fetch_def
  fetch_cmd_def show_manifest_def source_checkout_def checkout_cmd_def branch_override_def
  revision_log_def build_test_collect_def abs_string_def

lemmas select_defs =
  select_job_def resolve_names_def or_empty_def lower_def lower_char_def startswith_def

lemma obliging_world_simps:
  "platform_platform (obliging_world host) = host"
  "sys_executable (obliging_world host) = ''python3''"
  "sep (obliging_world host) = CHR ''/''"
  "run_method (obliging_world host) cmd shell exit_on_error st =
     (Inr 0, case put (fs st) (cwd st @ [''ros2.repos'']) (File ''repositories'') of
               None \<Rightarrow> fs st
             | Some n \<Rightarrow> n)"
  "hook (obliging_world host) h j st = (None, st)"
  "generated_venv_vars (obliging_world host) p = ([''venv''], p)"
  "archive_bytes (obliging_world host) fmt members = []"
  by (simp_all add: obliging_world_def batch_job_run_def)

text \<open>
  C10. Each of the four directory names is its variant with a space exactly when the
  white-space option selects it, and its default without a space otherwise; with the
  option absent or empty, all four are the defaults.
\<close>

theorem white_space_names:
  "workspace (resolve_names a) =
     (if ''workspace'' \<in> selected a then ''work space'' else ''workspace'') \<and>
   sourcespace (resolve_names a) =
     (if ''sourcespace'' \<in> selected a then ''source space'' else ''src'') \<and>
   buildspace (resolve_names a) =
     (if ''buildspace'' \<in> selected a then ''build space'' else ''build'') \<and>
   installspace (resolve_names a) =
     (if ''installspace'' \<in> selected a then ''install space'' else ''install'') \<and>
   (CHR '' '' \<in> set (workspace (resolve_names a))) = (''workspace'' \<in> selected a) \<and>
   (CHR '' '' \<in> set (sourcespace (resolve_names a))) = (''sourcespace'' \<in> selected a) \<and>
   (CHR '' '' \<in> set (buildspace (resolve_names a))) = (''buildspace'' \<in> selected a) \<and>
   (CHR '' '' \<in> set (installspace (resolve_names a))) = (''installspace'' \<in> selected a) \<and>
   (selected a = {} \<longrightarrow>
      workspace (resolve_names a) = ''workspace'' \<and> sourcespace (resolve_names a) = ''src'' \<and>
      buildspace (resolve_names a) = ''build'' \<and> installspace (resolve_names a) = ''install'')"
  by (cases "white_space_in a") (simp_all add: resolve_names_def selected_def or_empty_def Let_def)

theorem white_space_names_witness:
  "selected plain_cli = {} \<and>
   workspace (resolve_names plain_cli) = ''workspace'' \<and>
   sourcespace (resolve_names plain_cli) = ''src'' \<and>
   buildspace (resolve_names plain_cli) = ''build'' \<and>
   installspace (resolve_names plain_cli) = ''install'' \<and>
   selected (plain_cli\<lparr>white_space_in := Some [''buildspace'', ''workspace'']\<rparr>)
     = {''buildspace'', ''workspace''} \<and>
   workspace (resolve_names (plain_cli\<lparr>white_space_in := Some [''buildspace'', ''workspace'']\<rparr>))
     = ''work space'' \<and>
   sourcespace (resolve_names (plain_cli\<lparr>white_space_in := Some [''buildspace'', ''workspace'']\<rparr>))
     = ''src''"
proof -
  have none: "selected plain_cli = {}"
    by (simp add: selected_def plain_cli_def)
  have some: "selected (plain_cli\<lparr>white_space_in := Some [''buildspace'', ''workspace'']\<rparr>)
      = {''buildspace'', ''workspace''}"
    by (simp add: selected_def)
  show ?thesis
    using white_space_names [of plain_cli]
      white_space_names [of "plain_cli\<lparr>white_space_in := Some [''buildspace'', ''workspace'']\<rparr>"]
    by (simp add: none some)
qed

text \<open>
  C1, at an input where it fails: with \<^verbatim>\<open>--os osx\<close> on a Linux host the first test of the
  chain holds through the host's name, so the job is the Linux one and \<^verbatim>\<open>args.os\<close> is
  overwritten with \<^verbatim>\<open>'linux'\<close>.
\<close>

theorem os_flag_osx_on_linux_host:
  "select_job (lower ''Linux-5.4.0-42-generic-x86_64-with-Ubuntu-20.04-focal'')
     (resolve_names (plain_cli\<lparr>os := Some ''osx''\<rparr>))
   = (resolve_names (plain_cli\<lparr>os := Some ''linux''\<rparr>), Some LinuxBatchJob)"
  by (simp add: select_defs plain_cli_def)

text \<open>
  C2, at an input where it fails: no \<^verbatim>\<open>--os\<close> on a FreeBSD host. No branch of the chain is
  taken and \<^verbatim>\<open>job\<close> stays \<^verbatim>\<open>None\<close>; the run sets \<^verbatim>\<open>TERM\<close>, clears the workspace (the
  stale file is gone) and only then fails, with the \<^verbatim>\<open>AttributeError\<close> of \<^verbatim>\<open>job.pre()\<close>.
\<close>

theorem undetected_platform_clears_workspace:
  "main (obliging_world ''FreeBSD-12.1-RELEASE-amd64-64bit-ELF'') plain_cli start =
     (Inl (Raised AttributeError),
      start\<lparr>trace := [CleanedWorkspace [''workspace'']],
            fs := Dir [(''workspace'', Dir [])],
            environ := [(''TERM'', ''xterm-256color'')]\<rparr>)"
  by (simp add: main_def select_defs prog_defs os_defs job_defs obliging_world_simps
      plain_cli_def start_def)

text \<open>
  C3, at an input where it fails: \<^verbatim>\<open>--os windows --do-venv\<close> on a Linux host. The chain
  overwrites \<^verbatim>\<open>args.os\<close> with \<^verbatim>\<open>'linux'\<close>, the test at line 104 does not hold, and the
  run goes on: it clears the workspace, runs the Linux job's hooks, creates the virtual
  environment and returns 0.
\<close>

theorem venv_with_windows_flag_on_linux_host:
  "(case main (obliging_world ''Linux-5.4.0-42-generic-x86_64-with-Ubuntu-20.04-focal'')
           (plain_cli\<lparr>os := Some ''windows'', do_venv := True\<rparr>) start of
      (r, st') \<Rightarrow>
        r = Inr 0 \<and>
        take 4 (trace st') =
          [CleanedWorkspace [''workspace''],
           Hook Pre LinuxBatchJob,
           Hook ShowEnv LinuxBatchJob,
           Ran [] [''python3'', ''-m'', ''virtualenv'', ''-p'', ''python3'', ''venv'']
             False True (Inr 0)])"
  by (simp add: main_defs select_defs prog_defs os_defs job_defs obliging_world_simps
      plain_cli_def start_def Let_def)

text \<open>
  C4. Whatever the argument vector, the packaging entry point ends with the import error
  for \<^verbatim>\<open>get_args\<close>, in the state it started in: no stage has run.
\<close>

theorem packaging_main_import_error:
  "packaging_main w get_args run sysargv st = (Inl (Raised (ImportError ''get_args'')), st)"
  by (simp add: packaging_main_def packaging_imports_def import_from_def main_module_names_def
      thenP_def)

text \<open>
  C7. After a scoped directory change the working directory is the one from before it,
  whatever the body did and however it ended; the body ran in the directory entered, and
  its result is the result of the whole.
\<close>

theorem change_directory_restores:
  "cwd (snd (change_directory d body st)) = cwd st \<and>
   fst (change_directory d body st) = fst (body (st\<lparr>cwd := cwd st @ d\<rparr>))"
  by (simp add: change_directory_def Let_def split: prod.splits)

subsection \<open>The file system\<close>

lemma put_cons:
  "cs \<noteq> [] \<Longrightarrow> put (Dir es) (c # cs) x =
     (case map_of es c of
        None \<Rightarrow> None
      | Some m \<Rightarrow> (case put m cs x of
                    None \<Rightarrow> None
                  | Some m' \<Rightarrow> Some (Dir (AList.update c m' es))))"
  by (cases cs) (auto split: option.splits)

lemma unlink_cons:
  "cs \<noteq> [] \<Longrightarrow> unlink (Dir es) (c # cs) =
     (case map_of es c of
        None \<Rightarrow> None
      | Some m \<Rightarrow> (case unlink m cs of
                    None \<Rightarrow> None
                  | Some m' \<Rightarrow> Some (Dir (AList.update c m' es))))"
  by (cases cs) (auto split: option.splits)

lemma put_in_dir:
  "lookup n d = Some (Dir es) \<Longrightarrow>
   \<exists>n'. put n (d @ [c]) x = Some n' \<and> lookup n' (d @ [c]) = Some x"
proof (induction d arbitrary: n)
  case Nil
  then show ?case by (simp add: update_conv')
next
  case (Cons c' cs)
  then obtain es' m where n: "n = Dir es'" and m: "map_of es' c' = Some m"
    and sub: "lookup m cs = Some (Dir es)"
    by (cases n) (auto split: option.splits)
  from Cons.IH [OF sub] obtain m' where "put m (cs @ [c]) x = Some m'"
    and "lookup m' (cs @ [c]) = Some x" by blast
  then show ?case using n m
    by (simp add: put_cons update_conv')
qed

lemma unlink_Some_gone: "unlink n p = Some n' \<Longrightarrow> lookup n' p = None"
proof (induction n p arbitrary: n' rule: unlink.induct)
  case (3 es c)
  then show ?case
    by (auto split: option.splits node.splits simp: delete_conv')
next
  case (4 es c v va)
  then show ?case
    by (auto split: option.splits simp: update_conv')
qed simp_all

lemma unlink_None_no_file: "unlink n p = None \<Longrightarrow> p \<noteq> [] \<Longrightarrow> lookup n p \<noteq> Some (File c)"
proof (induction n p rule: unlink.induct)
  case (3 es c)
  then show ?case by (auto split: option.splits node.splits)
next
  case (4 es c v va)
  then show ?case by (auto split: option.splits)
qed simp_all

lemma os_remove_no_file:
  "os_remove p st = (r, st') \<Longrightarrow> p \<noteq> [] \<Longrightarrow> lookup (fs st') (cwd st @ p) \<noteq> Some (File c)"
  by (auto simp: os_remove_def modify_fs_def unlink_Some_gone split: option.splits
      dest: unlink_None_no_file)

subsection \<open>The packaging stage\<close>

lemma mask_bridge_writes:
  assumes bridge: "lookup (fs st) (cwd st @ ros1_bridge_path a) = Some (Dir es)"
    and free: "\<And>sub. lookup (fs st) (cwd st @ ros1_bridge_ignore_marker a) \<noteq> Some (Dir sub)"
  shows "\<exists>disk. mask_bridge a st = (Inr (Some (ros1_bridge_ignore_marker a)), st\<lparr>fs := disk\<rparr>) \<and>
           lookup disk (cwd st @ ros1_bridge_ignore_marker a) = Some (File [])"
proof -
  from put_in_dir [OF bridge, of "''AMENT_IGNORE''" "File []"]
  obtain disk where put: "put (fs st) (cwd st @ ros1_bridge_ignore_marker a) (File []) = Some disk"
    and there: "lookup disk (cwd st @ ros1_bridge_ignore_marker a) = Some (File [])"
    by (auto simp: ros1_bridge_ignore_marker_def)
  have "create_file (ros1_bridge_ignore_marker a) [] st = (Inr (), st\<lparr>fs := disk\<rparr>)"
    using free put
    by (auto simp: create_file_def modify_fs_def split: option.splits node.splits)
  then have "mask_bridge a st = (Inr (Some (ros1_bridge_ignore_marker a)), st\<lparr>fs := disk\<rparr>)"
    using bridge by (simp add: mask_bridge_def bindP_def thenP_def returnP_def os_path_exists_def)
  with there show ?thesis by blast
qed

text \<open>
  C9, as amended. Where the bridge's directory exists (and no directory stands in the
  marker's place), the marker is written before the build command runs: \<^verbatim>\<open>job.run\<close> is
  called on a disk that holds it as an empty file. When the call returns, no marker file
  is left once the stage has passed the removal at line 58. When the call ends the
  process or raises, the stage ends there, and the disk is as the call left it: the stage
  does not remove the marker.
\<close>

theorem marker_written_then_removed:
  assumes bridge: "lookup (fs st) (cwd st @ ros1_bridge_path a) = Some (Dir es)"
    and free: "\<And>sub. lookup (fs st) (cwd st @ ros1_bridge_ignore_marker a) \<noteq> Some (Dir sub)"
  shows "\<exists>st1. mask_bridge a st = (Inr (Some (ros1_bridge_ignore_marker a)), st1) \<and>
           trace st1 = trace st \<and>
           lookup (fs st1) (cwd st @ ros1_bridge_ignore_marker a) = Some (File []) \<and>
           (case run_method w (main_build_cmd w a (python st1)) False True st1 of
              (Inr ret, disk) \<Rightarrow>
                \<forall>c. lookup (fs (snd (masked_build w a st)))
                       (cwd st @ ros1_bridge_ignore_marker a) \<noteq> Some (File c)
            | (Inl e, disk) \<Rightarrow>
                masked_build w a st =
                  (Inl e,
                   st1\<lparr>trace := trace st @
                          [Ran (run_prefix st1) (main_build_cmd w a (python st1)) False True (Inl e)],
                       fs := disk\<rparr>))"
proof -
  from mask_bridge_writes [OF bridge free]
  obtain d1 where mask: "mask_bridge a st = (Inr (Some (ros1_bridge_ignore_marker a)), st\<lparr>fs := d1\<rparr>)"
    and there: "lookup d1 (cwd st @ ros1_bridge_ignore_marker a) = Some (File [])"
    by blast
  let ?st1 = "st\<lparr>fs := d1\<rparr>"
  let ?cmd = "main_build_cmd w a (python ?st1)"
  obtain out disk where ex: "run_method w ?cmd False True ?st1 = (out, disk)"
    by (cases "run_method w ?cmd False True ?st1")
  let ?st2 = "?st1\<lparr>trace := trace st @ [Ran (run_prefix ?st1) ?cmd False True out], fs := disk\<rparr>"
  have build: "main_build w a ?st1 = (case out of Inl e \<Rightarrow> (Inl e, ?st2) | Inr ret \<Rightarrow> (Inr (), ?st2))"
    using ex
    by (cases out)
       (simp_all add: main_build_def with_python_def run_cmd_def thenP_def job_run_def returnP_def)
  have whole: "masked_build w a st =
      (case out of
         Inl e \<Rightarrow> (Inl e, ?st2)
       | Inr ret \<Rightarrow> os_remove (ros1_bridge_ignore_marker a) ?st2)"
    using mask build
    by (cases out) (simp_all add: masked_build_def bindP_def thenP_def unmask_bridge_def)
  have gone: "lookup (fs (snd (os_remove (ros1_bridge_ignore_marker a) ?st2)))
      (cwd st @ ros1_bridge_ignore_marker a) \<noteq> Some (File c)" for c
    using os_remove_no_file [of "ros1_bridge_ignore_marker a" ?st2 _ _ c]
    by (cases "os_remove (ros1_bridge_ignore_marker a) ?st2")
       (simp add: ros1_bridge_ignore_marker_def)
  show ?thesis
    using mask there ex whole gone by (intro exI [of _ ?st1]) (cases out; simp)
qed

lemma pkg_linux_simps:
  "os pkg_linux = Some ''linux''" "sourcespace pkg_linux = ''src''"
  "buildspace pkg_linux = ''build''" "installspace pkg_linux = ''install''"
  "isolated pkg_linux = False"
  by (simp_all add: pkg_linux_def)

lemma failing_world_simps:
  "sys_executable failing_world = ''python3''"
  "sep failing_world = CHR ''/''"
  "run_method failing_world cmd shell True st = (Inl (SystemExit (Code 1)), fs st)"
  "hook failing_world h j st = (None, st)"
  by (simp_all add: failing_world_def batch_job_run_def)

lemmas packaging_defs =
  build_and_package_def masked_build_def mask_bridge_def ros1_bridge_path_def
  ros1_bridge_ignore_marker_def main_build_def main_build_cmd_def unmask_bridge_def
  bridge_build_def remove_unwanted_def unwanted_def ament_py_def quoted_def

text \<open>
  C9 as stated fails: the build command returns 1 and leaves the disk alone; the stage
  ends with exit code 1 and the marker is still in the bridge's directory.
\<close>

theorem failed_build_leaves_marker:
  "lookup (fs pkg_start) (cwd pkg_start @ ros1_bridge_path pkg_linux)
     = Some (Dir [(''package.xml'', File ''bridge'')]) \<and>
   fst (build_and_package failing_world pkg_linux pkg_start) = Inl (SystemExit (Code 1)) \<and>
   lookup (fs (snd (build_and_package failing_world pkg_linux pkg_start)))
     (cwd pkg_start @ ros1_bridge_ignore_marker pkg_linux) = Some (File [])"
  by (simp add: packaging_defs prog_defs os_defs job_defs failing_world_simps pkg_linux_simps
      pkg_start_def)

theorem marker_written_then_removed_witness:
  "lookup (fs pkg_start) (cwd pkg_start @ ros1_bridge_path pkg_linux)
     = Some (Dir [(''package.xml'', File ''bridge'')]) \<and>
   lookup (fs pkg_start) (cwd pkg_start @ ros1_bridge_ignore_marker pkg_linux) = None \<and>
   (\<forall>c. lookup (fs (snd (masked_build (obliging_world ''Linux'') pkg_linux pkg_start)))
          (cwd pkg_start @ ros1_bridge_ignore_marker pkg_linux) \<noteq> Some (File c))"
proof -
  have bridge: "lookup (fs pkg_start) (cwd pkg_start @ ros1_bridge_path pkg_linux)
      = Some (Dir [(''package.xml'', File ''bridge'')])"
    by (simp add: pkg_start_def ros1_bridge_path_def pkg_linux_simps)
  have free: "lookup (fs pkg_start) (cwd pkg_start @ ros1_bridge_ignore_marker pkg_linux) = None"
    by (simp add: pkg_start_def ros1_bridge_ignore_marker_def ros1_bridge_path_def pkg_linux_simps)
  from marker_written_then_removed [OF bridge, of "obliging_world ''Linux''"] free
  show ?thesis
    by (auto simp: bridge obliging_world_simps)
qed

subsection \<open>The archive\<close>

lemma file_members_append [simp]: "file_members (xs @ ys) = file_members xs @ file_members ys"
  by (induction xs rule: file_members.induct) simp_all

lemma dir_members_append [simp]: "dir_members (xs @ ys) = dir_members xs @ dir_members ys"
  by (induction xs rule: dir_members.induct) simp_all

lemma tar_add_files:
  "file_members (tar_add t arc) = map (\<lambda>(p, c). (arc @ p, c)) (files_of t)"
  "file_members (tar_add_entries es arc) = map (\<lambda>(p, c). (arc @ p, c)) (files_of_entries es)"
  by (induction t arc and es arc rule: tar_add_tar_add_entries.induct)
     (simp_all add: case_prod_unfold comp_def)

lemma tar_add_dirs:
  "dir_members (tar_add t arc) = map ((@) arc) (dirs_of t)"
  "dir_members (tar_add_entries es arc) = map ((@) arc) (dirs_of_entries es)"
  by (induction t arc and es arc rule: tar_add_tar_add_entries.induct)
     (simp_all add: comp_def)

lemma lookup_append:
  "lookup n (p @ q) = (case lookup n p of None \<Rightarrow> None | Some m \<Rightarrow> lookup m q)"
proof (induction p arbitrary: n)
  case Nil
  show ?case by simp
next
  case (Cons c cs)
  show ?case
  proof (cases n)
    case (File x)
    then show ?thesis by simp
  next
    case (Dir es)
    then show ?thesis using Cons.IH by (simp split: option.splits)
  qed
qed

lemma those_append:
  "those (xs @ ys) =
     (case those xs of
        None \<Rightarrow> None
      | Some a \<Rightarrow> (case those ys of None \<Rightarrow> None | Some b \<Rightarrow> Some (a @ b)))"
  by (induction xs) (auto split: option.splits)

lemma foldl_norm_step_valid:
  "list_all valid_name xs \<Longrightarrow> foldl norm_step acc xs = acc @ xs"
  by (induction xs arbitrary: acc) (simp_all add: norm_step_def valid_name_def)

lemma relpath_below: "relpath (inst # q) [inst] = (if q = [] then [''.''] else q)"
  by (simp add: relpath_def)

lemma normpath_dir:
  "valid_name f \<Longrightarrow> list_all valid_name q \<Longrightarrow> normpath (f # relpath (inst # q) [inst]) = f # q"
  using foldl_norm_step_valid [of "f # q" "[]"]
  by (auto simp: relpath_below normpath_def norm_step_def valid_name_def)

lemma normpath_file:
  "valid_name f \<Longrightarrow> list_all valid_name q \<Longrightarrow> valid_name x \<Longrightarrow>
   normpath (f # relpath (inst # q) [inst] @ [x]) = f # q @ [x]"
  using foldl_norm_step_valid [of "f # q @ [x]" "[]"]
  by (auto simp: relpath_below normpath_def norm_step_def valid_name_def)

lemma map_of_distinct: "distinct (map fst es) \<Longrightarrow> (n, m) \<in> set es \<Longrightarrow> map_of es n = Some m"
  by simp

lemma wf_entries_valid: "wf_entries es \<Longrightarrow> (n, m) \<in> set es \<Longrightarrow> valid_name n \<and> wf_tree m"
  by (induction es) auto

lemma files_of_plain_entries:
  "files_of_entries (filter (\<lambda>e. \<not> is_dir (snd e)) es) =
     map (\<lambda>(n, m). ([n], file_content m)) (filter (\<lambda>e. \<not> is_dir (snd e)) es)"
proof (induction es)
  case Nil
  show ?case by simp
next
  case (Cons e es)
  obtain n m where e: "e = (n, m)" by (cases e)
  show ?case using Cons e by (cases m) simp_all
qed

lemma files_of_entries_split:
  "set (files_of_entries es) =
     set (files_of_entries (filter (\<lambda>e. \<not> is_dir (snd e)) es)) \<union>
     set (files_of_entries (filter (\<lambda>e. is_dir (snd e)) es))"
proof (induction es)
  case Nil
  show ?case by simp
next
  case (Cons e es)
  obtain n m where e: "e = (n, m)" by (cases e)
  show ?case using Cons e by (cases m) auto
qed

lemma zip_files_of_dir:
  assumes sub: "set es' \<subseteq> set es"
    and dist: "distinct (map fst es)"
    and wf: "wf_entries es"
    and disk: "\<And>p. lookup disk (here @ (inst # q) @ p) = lookup (Dir es) p"
    and names: "valid_name f" "list_all valid_name q"
  shows "those (map (\<lambda>filename. zf_write disk here ((inst # q) @ [filename])
                      (f # relpath (inst # q) [inst] @ [filename]))
            (map fst (filter (\<lambda>e. \<not> is_dir (snd e)) es')))
         = Some (map (\<lambda>(n, m). FileEntry (f # q @ [n]) (file_content m))
                  (filter (\<lambda>e. \<not> is_dir (snd e)) es'))"
  using sub
proof (induction es')
  case Nil
  show ?case by simp
next
  case (Cons e es')
  obtain n m where e: "e = (n, m)" by (cases e)
  with Cons.prems have mem: "(n, m) \<in> set es" by simp
  have rest: "set es' \<subseteq> set es" using Cons.prems by simp
  show ?case
  proof (cases m)
    case (Dir sub)
    then show ?thesis using Cons.IH [OF rest] e by simp
  next
    case (File c)
    have "lookup disk (here @ (inst # q) @ [n]) = Some (File c)"
      using disk [of "[n]"] map_of_distinct [OF dist mem] File by simp
    moreover have "valid_name n" using wf_entries_valid [OF wf mem] by simp
    ultimately have "zf_write disk here ((inst # q) @ [n]) (f # relpath (inst # q) [inst] @ [n])
        = Some (FileEntry (f # q @ [n]) c)"
      using names by (simp add: zf_write_def normpath_file)
    then show ?thesis using Cons.IH [OF rest] e File by simp
  qed
qed

lemma zip_dir_step:
  assumes dist: "distinct (map fst es)"
    and wf: "wf_entries es"
    and disk: "\<And>p. lookup disk (here @ (inst # q) @ p) = lookup (Dir es) p"
    and names: "valid_name f" "list_all valid_name q"
  shows "those (zip_step disk here f inst
            (inst # q, map fst (filter (\<lambda>e. is_dir (snd e)) es),
             map fst (filter (\<lambda>e. \<not> is_dir (snd e)) es)))
         = Some (DirEntry (f # q) #
                 map (\<lambda>(n, m). FileEntry (f # q @ [n]) (file_content m))
                   (filter (\<lambda>e. \<not> is_dir (snd e)) es))"
proof -
  have "zf_write disk here (inst # q) (f # relpath (inst # q) [inst]) = Some (DirEntry (f # q))"
    using disk [of "[]"] names by (simp add: zf_write_def normpath_dir)
  then show ?thesis
    using zip_files_of_dir [OF subset_refl dist wf disk names]
    by (simp add: zip_step_def)
qed

lemma file_members_plain:
  "file_members (map (\<lambda>(n, m). FileEntry (f # q @ [n]) (file_content m)) es)
     = map (\<lambda>(n, m). (f # q @ [n], file_content m)) es"
  by (induction es) auto

lemma dir_members_plain:
  "dir_members (map (\<lambda>(n, m). FileEntry (f # q @ [n]) (file_content m)) es) = []"
  by (induction es) auto

lemma zip_walk:
  fixes disk :: node and here :: path and f inst :: string
  assumes f: "valid_name f"
  shows "is_dir t \<Longrightarrow> wf_tree t \<Longrightarrow> list_all valid_name q \<Longrightarrow> d = inst # q \<Longrightarrow>
         (\<And>p. lookup disk (here @ d @ p) = lookup t p) \<Longrightarrow>
         \<exists>ms. those (concat (map (zip_step disk here f inst) (os_walk d t))) = Some ms \<and>
              set (file_members ms) = (\<lambda>(p, c). (f # q @ p, c)) ` set (files_of t) \<and>
              set (dir_members ms) = (\<lambda>p. f # q @ p) ` set (dirs_of t)"
    and "distinct (map fst es) \<Longrightarrow> wf_entries es \<Longrightarrow> list_all valid_name q \<Longrightarrow> d = inst # q \<Longrightarrow>
         (\<And>n m p. (n, m) \<in> set es \<Longrightarrow> lookup disk (here @ d @ n # p) = lookup m p) \<Longrightarrow>
         \<exists>ms. those (concat (map (zip_step disk here f inst) (walk_entries d es))) = Some ms \<and>
              set (file_members ms) =
                (\<lambda>(p, c). (f # q @ p, c)) ` set (files_of_entries (filter (\<lambda>e. is_dir (snd e)) es)) \<and>
              set (dir_members ms) = (\<lambda>p. f # q @ p) ` set (dirs_of_entries es)"
proof (induction d t and d es arbitrary: q and q rule: os_walk_walk_entries.induct)
  case (1 d c)
  then show ?case by simp
next
  case (2 d es)
  have dist: "distinct (map fst es)" and wf: "wf_entries es"
    using "2.prems" by simp_all
  have disk: "lookup disk (here @ (inst # q) @ p) = lookup (Dir es) p" for p
    using "2.prems" by simp
  have below: "lookup disk (here @ d @ n # p) = lookup m p" if "(n, m) \<in> set es" for n m p
    using "2.prems"(5) [of "n # p"] map_of_distinct [OF dist that] by simp
  from "2.IH" [OF dist wf "2.prems"(3,4) below]
  obtain ms where ms: "those (concat (map (zip_step disk here f inst) (walk_entries d es))) = Some ms"
    and files: "set (file_members ms) =
        (\<lambda>(p, c). (f # q @ p, c)) ` set (files_of_entries (filter (\<lambda>e. is_dir (snd e)) es))"
    and dirs: "set (dir_members ms) = (\<lambda>p. f # q @ p) ` set (dirs_of_entries es)"
    by blast
  let ?own = "DirEntry (f # q) #
      map (\<lambda>(n, m). FileEntry (f # q @ [n]) (file_content m)) (filter (\<lambda>e. \<not> is_dir (snd e)) es)"
  have own: "those (zip_step disk here f inst
        (d, map fst (filter (\<lambda>e. is_dir (snd e)) es),
         map fst (filter (\<lambda>e. \<not> is_dir (snd e)) es))) = Some ?own"
    using zip_dir_step [OF dist wf disk f "2.prems"(3)] "2.prems"(4) by simp
  have all: "those (concat (map (zip_step disk here f inst) (os_walk d (Dir es)))) = Some (?own @ ms)"
    using own ms by (simp add: those_append del: those.simps)
  have own_files: "set (file_members ?own) =
      (\<lambda>(p, c). (f # q @ p, c)) ` set (files_of_entries (filter (\<lambda>e. \<not> is_dir (snd e)) es))"
  proof -
    have "file_members ?own =
        map (\<lambda>(n, m). (f # q @ [n], file_content m)) (filter (\<lambda>e. \<not> is_dir (snd e)) es)"
      by (simp add: file_members_plain)
    then show ?thesis
      by (simp add: files_of_plain_entries image_image case_prod_unfold)
  qed
  have "set (file_members (?own @ ms)) = (\<lambda>(p, c). (f # q @ p, c)) ` set (files_of (Dir es))"
    using own_files files files_of_entries_split [of es]
    by (simp only: file_members_append set_append files_of.simps image_Un)
  moreover have "set (dir_members (?own @ ms)) = (\<lambda>p. f # q @ p) ` set (dirs_of (Dir es))"
    using dirs by (simp add: dir_members_plain)
  ultimately show ?case using all by blast
next
  case (3 d)
  show ?case by simp
next
  case (4 d n m es)
  have dist: "distinct (map fst es)" and wf: "wf_entries es" and wfm: "wf_tree m"
    and n: "valid_name n"
    using "4.prems" by simp_all
  have below: "lookup disk (here @ d @ n' # p) = lookup m' p" if "(n', m') \<in> set es" for n' m' p
    using "4.prems"(5) that by simp
  from "4.IH"(2) [OF dist wf "4.prems"(3,4) below]
  obtain ms where ms: "those (concat (map (zip_step disk here f inst) (walk_entries d es))) = Some ms"
    and files: "set (file_members ms) =
        (\<lambda>(p, c). (f # q @ p, c)) ` set (files_of_entries (filter (\<lambda>e. is_dir (snd e)) es))"
    and dirs: "set (dir_members ms) = (\<lambda>p. f # q @ p) ` set (dirs_of_entries es)"
    by blast
  show ?case
  proof (cases m)
    case (File c)
    then show ?thesis using ms files dirs by simp
  next
    case (Dir sub)
    have q': "list_all valid_name (q @ [n])" using "4.prems"(3) n by simp
    have d': "d @ [n] = inst # q @ [n]" using "4.prems"(4) by simp
    have inside: "lookup disk (here @ (d @ [n]) @ p) = lookup m p" for p
      using "4.prems"(5) [of n m p] by simp
    from "4.IH"(1) [OF _ wfm q' d' inside] Dir
    obtain ms' where ms': "those (concat (map (zip_step disk here f inst) (os_walk (d @ [n]) m))) = Some ms'"
      and files': "set (file_members ms') = (\<lambda>(p, c). (f # (q @ [n]) @ p, c)) ` set (files_of m)"
      and dirs': "set (dir_members ms') = (\<lambda>p. f # (q @ [n]) @ p) ` set (dirs_of m)"
      by auto
    have "those (concat (map (zip_step disk here f inst) (walk_entries d ((n, m) # es)))) = Some (ms' @ ms)"
      using ms ms' by (simp add: those_append)
    moreover have "set (file_members (ms' @ ms)) =
        (\<lambda>(p, c). (f # q @ p, c)) `
          set (files_of_entries (filter (\<lambda>e. is_dir (snd e)) ((n, m) # es)))"
      using files files' Dir by (simp add: image_Un image_image case_prod_unfold)
    moreover have "set (dir_members (ms' @ ms)) =
        (\<lambda>p. f # q @ p) ` set (dirs_of_entries ((n, m) # es))"
      using dirs dirs' by (simp add: image_Un image_image)
    ultimately show ?thesis by blast
  qed
qed

lemma lookup_put_same: "put n p x = Some n' \<Longrightarrow> lookup n' p = Some x"
proof (induction n p x arbitrary: n' rule: put.induct)
  case (3 es c new)
  then show ?case by (auto simp: update_conv')
next
  case (4 es c v va new)
  then show ?case by (auto simp: update_conv' split: option.splits)
qed simp_all

lemma lookup_put_sibling:
  "put n (d @ [c]) x = Some n' \<Longrightarrow> c' \<noteq> c \<Longrightarrow> lookup n' (d @ c' # q) = lookup n (d @ c' # q)"
proof (induction d arbitrary: n n')
  case Nil
  then show ?case by (cases n) (auto simp: update_conv')
next
  case (Cons a ds)
  show ?case
  proof (cases n)
    case (File x1)
    with Cons.prems show ?thesis by simp
  next
    case (Dir es)
    with Cons.prems obtain m m' where m: "map_of es a = Some m"
      and put: "put m (ds @ [c]) x = Some m'" and n': "n' = Dir (AList.update a m' es)"
      by (auto simp: put_cons split: option.splits)
    show ?thesis using Cons.IH [OF put Cons.prems(2)] m n' Dir by (simp add: update_conv')
  qed
qed

lemma thenP_Inr:
  "thenP m n st = (Inr y, st') \<Longrightarrow> \<exists>x st1. m st = (Inr x, st1) \<and> n st1 = (Inr y, st')"
proof -
  obtain r s where ms: "m st = (r, s)" by (cases "m st")
  assume "thenP m n st = (Inr y, st')"
  with ms show ?thesis by (cases r) (simp_all add: thenP_def)
qed

lemma create_file_Inr:
  "create_file p content st = (Inr u, st') \<Longrightarrow>
   \<exists>disk. put (fs st) (cwd st @ p) (File content) = Some disk \<and> st' = st\<lparr>fs := disk\<rparr>"
  by (auto simp: create_file_def modify_fs_def split: option.splits node.splits)

lemma close_archive_Inr:
  assumes "close_archive w fmt ap ms st = (Inr u, st')"
  shows "\<exists>disk. put (fs st) (cwd st @ [ap]) (File (archive_bytes w fmt ms)) = Some disk \<and>
           st' = st\<lparr>fs := disk, trace := trace st @ [WroteArchive fmt ap ms]\<rparr>"
proof -
  from assms obtain x st1 where 1: "create_file [ap] (archive_bytes w fmt ms) st = (Inr x, st1)"
    and 2: "record_archive fmt ap ms st1 = (Inr u, st')"
    unfolding close_archive_def by (blast dest: thenP_Inr)
  from create_file_Inr [OF 1] 2 show ?thesis
    by (auto simp: record_archive_def)
qed

text \<open>What the archive step leaves when it succeeds, for either format.\<close>

lemma archive_written:
  assumes opened: "open_archive w fmt ap st = (Inr u, st1)"
    and closed: "close_archive w fmt ap ms st1 = (Inr v, st')"
    and tree: "lookup (fs st') (cwd st' @ [inst]) = Some (Dir es)"
  shows "trace st' = trace st @ [WroteArchive fmt ap ms]"
    and "cwd st1 = cwd st" and "cwd st' = cwd st"
    and "lookup (fs st') (cwd st @ [ap]) = Some (File (archive_bytes w fmt ms))"
    and "lookup (fs st1) (cwd st @ [inst] @ p) = lookup (Dir es) p"
proof -
  from opened obtain d1 where d1: "put (fs st) (cwd st @ [ap]) (File (archive_bytes w fmt [])) = Some d1"
    and st1: "st1 = st\<lparr>fs := d1\<rparr>"
    unfolding open_archive_def by (blast dest: create_file_Inr)
  from close_archive_Inr [OF closed] obtain d2
    where d2: "put (fs st1) (cwd st1 @ [ap]) (File (archive_bytes w fmt ms)) = Some d2"
      and st': "st' = st1\<lparr>fs := d2, trace := trace st1 @ [WroteArchive fmt ap ms]\<rparr>"
    by blast
  show "trace st' = trace st @ [WroteArchive fmt ap ms]" "cwd st1 = cwd st" "cwd st' = cwd st"
    using st1 st' by simp_all
  have same: "lookup d2 (cwd st @ [ap]) = Some (File (archive_bytes w fmt ms))"
    using lookup_put_same [OF d2] st1 by simp
  then show "lookup (fs st') (cwd st @ [ap]) = Some (File (archive_bytes w fmt ms))"
    using st' by simp
  have neq: "inst \<noteq> ap" using same tree st' st1 by auto
  have "lookup d2 (cwd st @ inst # []) = lookup d1 (cwd st @ inst # [])"
    using lookup_put_sibling [OF d2 neq, of "[]"] st1 by simp
  then have "lookup d1 (cwd st @ [inst]) = Some (Dir es)"
    using tree st' st1 by simp
  then show "lookup (fs st1) (cwd st @ [inst] @ p) = lookup (Dir es) p"
    using lookup_append [of d1 "cwd st @ [inst]" p] st1 by simp
qed

lemma quietD: "quiet m \<Longrightarrow> m st = (r, st') \<Longrightarrow> trace st' = trace st \<and> cwd st' = cwd st"
  by (auto simp: quiet_def dest: spec [of _ st])

lemma quiet_thenP: "quiet m \<Longrightarrow> quiet n \<Longrightarrow> quiet (thenP m n)"
  unfolding quiet_def
proof (intro allI)
  fix st
  assume m: "\<forall>st. trace (snd (m st)) = trace st \<and> cwd (snd (m st)) = cwd st"
    and n: "\<forall>st. trace (snd (n st)) = trace st \<and> cwd (snd (n st)) = cwd st"
  obtain r s where ms: "m st = (r, s)" by (cases "m st")
  show "trace (snd (thenP m n st)) = trace st \<and> cwd (snd (thenP m n st)) = cwd st"
    using m [rule_format, of st] n [rule_format, of s] ms
    by (cases r) (simp_all add: thenP_def)
qed

lemma quiet_steps: "list_all quiet ms \<Longrightarrow> quiet (steps ms)"
proof (induction ms)
  case Nil
  show ?case by (simp add: quiet_def)
next
  case (Cons m ms)
  then have "quiet (thenP m (steps ms))" by (simp add: quiet_thenP)
  then show ?case by (simp add: quiet_def)
qed

lemma quiet_modify_fs: "quiet (modify_fs f)"
  by (simp add: quiet_def modify_fs_def split: option.splits)

lemma quiet_shutil_copy: "quiet (shutil_copy src dst)"
  using quiet_modify_fs
  by (simp add: quiet_def shutil_copy_def split: option.splits node.splits)

lemma quiet_copy_opencv_dlls: "quiet (copy_opencv_dlls a)"
  by (simp add: copy_opencv_dlls_def copy_opencv_dll_def quiet_steps quiet_shutil_copy)

lemma folder_valid: "valid_name (''ros2-'' @ name)"
  by (simp add: valid_name_def)

text \<open>
  C8. Where the stage's archive step succeeds for a supported OS, it has written one
  archive, named \<^verbatim>\<open>ros2-package-<os>.tar.bz2\<close> (linux, osx) or
  \<^verbatim>\<open>ros2-package-<os>.zip\<close> (windows), and the file members of the archive are exactly
  the files of the install tree, each with its contents and its path under the one root
  \<^verbatim>\<open>ros2-<os>\<close>; the directory members are exactly the tree's directories under that
  root.
\<close>

theorem archive_round_trip:
  assumes os: "os a = Some name"
    and supported: "name = ''linux'' \<or> name = ''osx'' \<or> name = ''windows''"
    and run: "create_archive w a st = (Inr (), st')"
    and tree: "lookup (fs st') (cwd st' @ [installspace a]) = Some (Dir es)"
    and wf: "wf_tree (Dir es)"
  shows "\<exists>ms. trace st' =
                trace st @ [WroteArchive (spec_archive_format name) (spec_archive_name name) ms] \<and>
              lookup (fs st') (cwd st' @ [spec_archive_name name]) =
                Some (File (archive_bytes w (spec_archive_format name) ms)) \<and>
              set (file_members ms) =
                (\<lambda>(p, c). ((''ros2-'' @ name) # p, c)) ` set (files_of (Dir es)) \<and>
              set (dir_members ms) = (\<lambda>p. (''ros2-'' @ name) # p) ` set (dirs_of (Dir es))"
proof (cases "name = ''windows''")
  case False
  let ?ap = "''ros2-package-'' @ name @ ''.tar.bz2''"
  let ?folder = "''ros2-'' @ name"
  have "write_tar w a ?ap ?folder st = (Inr (), st')"
    using run os supported False by (auto simp: create_archive_def)
  then obtain u st1 where opened: "open_archive w TarBz2 ?ap st = (Inr u, st1)"
    and added: "add_tar w a ?ap ?folder st1 = (Inr (), st')"
    unfolding write_tar_def by (blast dest: thenP_Inr)
  from added obtain t where t: "lookup (fs st1) (cwd st1 @ [installspace a]) = Some t"
    and closed: "close_archive w TarBz2 ?ap (tar_add t [?folder]) st1 = (Inr (), st')"
    by (auto simp: add_tar_def split: option.splits)
  note written = archive_written [OF opened closed tree]
  have "t = Dir es" using written(5) [of "[]"] written(2) t by simp
  then show ?thesis
    using written(1,3,4) False
    by (intro exI [of _ "tar_add t [?folder]"])
       (simp add: spec_archive_format_def spec_archive_name_def tar_add_files tar_add_dirs
          del: tar_add.simps files_of.simps dirs_of.simps)
next
  case True
  let ?ap = "''ros2-package-windows.zip''"
  let ?folder = "''ros2-'' @ name"
  have "thenP (copy_opencv_dlls a) (write_zip w a ?ap ?folder) st = (Inr (), st')"
    using run os True by (simp add: create_archive_def)
  then obtain x stc where copied: "copy_opencv_dlls a st = (Inr x, stc)"
    and zipped: "write_zip w a ?ap ?folder stc = (Inr (), st')"
    by (blast dest: thenP_Inr)
  have frame: "trace stc = trace st" "cwd stc = cwd st"
    using quietD [OF quiet_copy_opencv_dlls copied] by simp_all
  from zipped obtain u st1 where opened: "open_archive w Zip ?ap stc = (Inr u, st1)"
    and walked: "walk_zip w a ?ap ?folder st1 = (Inr (), st')"
    unfolding write_zip_def by (blast dest: thenP_Inr)
  from walked obtain ms
    where ms: "zip_members (fs st1) (cwd st1) ?folder (installspace a) = Some ms"
      and closed: "close_archive w Zip ?ap ms st1 = (Inr (), st')"
    by (auto simp: walk_zip_def split: option.splits)
  note written = archive_written [OF opened closed tree]
  have inside: "lookup (fs st1) (cwd st1 @ [installspace a] @ p) = lookup (Dir es) p" for p
    using written(5) [of p] written(2) by simp
  from zip_walk(1) [OF folder_valid, of "Dir es" "[]" "[installspace a]" "installspace a"
      "fs st1" "cwd st1" name] wf inside
  obtain ms' where ms': "those (concat (map (zip_step (fs st1) (cwd st1) ?folder (installspace a))
        (os_walk [installspace a] (Dir es)))) = Some ms'"
    and files: "set (file_members ms') = (\<lambda>(p, c). (?folder # p, c)) ` set (files_of (Dir es))"
    and dirs: "set (dir_members ms') = (\<lambda>p. ?folder # p) ` set (dirs_of (Dir es))"
    by auto
  have "ms' = ms"
    using ms ms' inside [of "[]"] by (simp add: zip_members_def del: os_walk.simps)
  then show ?thesis
    using written(1,3,4) frame files dirs True
    by (intro exI [of _ ms]) (simp add: spec_archive_format_def spec_archive_name_def)
qed

lemmas archive_defs =
  create_archive_def write_tar_def add_tar_def write_zip_def walk_zip_def open_archive_def
  close_archive_def record_archive_def copy_opencv_dlls_def copy_opencv_dll_def
  shutil_copy_def opencv_libdir_def zip_members_def zip_step_def zf_write_def
  relpath_def normpath_def norm_step_def

lemma tar_run:
  "fst (create_archive w pkg_linux pkg_start) = Inr ()"
  "lookup (fs (snd (create_archive w pkg_linux pkg_start)))
     (cwd (snd (create_archive w pkg_linux pkg_start)) @ [installspace pkg_linux]) = Some install_tree"
  by (simp_all add: archive_defs prog_defs os_defs pkg_linux_simps pkg_start_def install_tree_def)

lemma zip_run:
  "fst (create_archive w (pkg_linux\<lparr>os := Some ''windows''\<rparr>) pkg_start) = Inr ()"
  "lookup (fs (snd (create_archive w (pkg_linux\<lparr>os := Some ''windows''\<rparr>) pkg_start)))
     (cwd (snd (create_archive w (pkg_linux\<lparr>os := Some ''windows''\<rparr>) pkg_start))
        @ [installspace (pkg_linux\<lparr>os := Some ''windows''\<rparr>)]) = Some windows_tree"
  by (simp_all add: archive_defs prog_defs os_defs pkg_linux_def pkg_start_def install_tree_def
      windows_tree_def)

theorem archive_round_trip_witness:
  "(\<exists>ms. trace (snd (create_archive (obliging_world ''Linux'') pkg_linux pkg_start)) =
           [WroteArchive TarBz2 ''ros2-package-linux.tar.bz2'' ms] \<and>
         set (file_members ms) =
           {([''ros2-linux'', ''bin'', ''talker''], ''elf''),
            ([''ros2-linux'', ''bin'', ''talker__rmw_opensplice''], ''elf''),
            ([''ros2-linux'', ''setup.sh''], ''source'')}) \<and>
   (\<exists>ms. trace (snd (create_archive (obliging_world ''Linux'')
                         (pkg_linux\<lparr>os := Some ''windows''\<rparr>) pkg_start)) =
           [WroteArchive Zip ''ros2-package-windows.zip'' ms] \<and>
         set (dir_members ms) = {[''ros2-windows''], [''ros2-windows'', ''bin'']})"
proof -
  have wf: "wf_tree install_tree" "wf_tree windows_tree"
    by (simp_all add: install_tree_def windows_tree_def valid_name_def)
  have tar: "create_archive (obliging_world ''Linux'') pkg_linux pkg_start
      = (Inr (), snd (create_archive (obliging_world ''Linux'') pkg_linux pkg_start))"
    using tar_run(1) [of "obliging_world ''Linux''"] by (simp add: prod_eq_iff)
  have zip: "create_archive (obliging_world ''Linux'') (pkg_linux\<lparr>os := Some ''windows''\<rparr>) pkg_start
      = (Inr (), snd (create_archive (obliging_world ''Linux'')
                        (pkg_linux\<lparr>os := Some ''windows''\<rparr>) pkg_start))"
    using zip_run(1) [of "obliging_world ''Linux''"] by (simp add: prod_eq_iff)
  have "os pkg_linux = Some ''linux''" "os (pkg_linux\<lparr>os := Some ''windows''\<rparr>) = Some ''windows''"
    by (simp_all add: pkg_linux_def)
  from archive_round_trip [OF this(1) _ tar tar_run(2) [unfolded install_tree_def] wf(1) [unfolded install_tree_def]]
    archive_round_trip [OF this(2) _ zip zip_run(2) [unfolded windows_tree_def] wf(2) [unfolded windows_tree_def]]
  show ?thesis
    apply (simp add: spec_archive_name_def spec_archive_format_def pkg_start_def)
    apply (auto simp: image_def)
    done
qed


subsection \<open>Traces\<close>

lemma emitsI:
  "(\<And>st r st'. m st = (r, st') \<Longrightarrow> \<exists>new. trace st' = trace st @ new \<and> Q r new) \<Longrightarrow> emits m Q"
  unfolding emits_def
proof
  fix st
  assume h: "\<And>st r st'. m st = (r, st') \<Longrightarrow> \<exists>new. trace st' = trace st @ new \<and> Q r new"
  show "\<exists>new. trace (snd (m st)) = trace st @ new \<and> Q (fst (m st)) new"
    using h [of st "fst (m st)" "snd (m st)"] by simp
qed

lemma emitsD:
  "emits m Q \<Longrightarrow> m st = (r, st') \<Longrightarrow> \<exists>new. trace st' = trace st @ new \<and> Q r new"
  unfolding emits_def by (drule spec [of _ st]) simp

lemma emits_weaken: "emits m P \<Longrightarrow> (\<And>r new. P r new \<Longrightarrow> Q r new) \<Longrightarrow> emits m Q"
  unfolding emits_def by blast

lemma thenP_cases:
  assumes "thenP m n st = (r, st')"
  obtains (stop) e where "m st = (Inl e, st')" "r = Inl e"
  | (go) x st1 where "m st = (Inr x, st1)" "n st1 = (r, st')"
proof -
  obtain r1 s1 where ms: "m st = (r1, s1)" by (cases "m st")
  show ?thesis
  proof (cases r1)
    case (Inl e)
    with ms assms stop show ?thesis by (simp add: thenP_def)
  next
    case (Inr x)
    with ms assms go show ?thesis by (simp add: thenP_def)
  qed
qed

lemma bindP_cases:
  assumes "bindP m f st = (r, st')"
  obtains (stop) e where "m st = (Inl e, st')" "r = Inl e"
  | (go) x st1 where "m st = (Inr x, st1)" "f x st1 = (r, st')"
proof -
  obtain r1 s1 where ms: "m st = (r1, s1)" by (cases "m st")
  show ?thesis
  proof (cases r1)
    case (Inl e)
    with ms assms stop show ?thesis by (simp add: bindP_def)
  next
    case (Inr x)
    with ms assms go show ?thesis by (simp add: bindP_def)
  qed
qed

lemma emits_bindP:
  assumes m: "emits m P" and f: "\<And>x. emits (f x) P'"
    and stop: "\<And>e new. P (Inl e) new \<Longrightarrow> Q (Inl e) new"
    and go: "\<And>x new r new'. P (Inr x) new \<Longrightarrow> P' r new' \<Longrightarrow> Q r (new @ new')"
  shows "emits (bindP m f) Q"
proof (rule emitsI)
  fix st r st'
  assume "bindP m f st = (r, st')"
  then show "\<exists>new. trace st' = trace st @ new \<and> Q r new"
  proof (cases rule: bindP_cases)
    case (stop e)
    with emitsD [OF m stop(1)] assms(3) show ?thesis by blast
  next
    case (go x st1)
    from emitsD [OF m go(1)] obtain new where 1: "trace st1 = trace st @ new" "P (Inr x) new"
      by blast
    from emitsD [OF f go(2)] obtain new' where 2: "trace st' = trace st1 @ new'" "P' r new'"
      by blast
    from 1 2 assms(4) show ?thesis by (intro exI [of _ "new @ new'"]) simp
  qed
qed

lemma thenP_bindP: "thenP m n = bindP m (\<lambda>_. n)"
  by (rule ext) (simp add: thenP_def bindP_def)

lemma emits_thenP:
  assumes "emits m P" and "emits n P'"
    and "\<And>e new. P (Inl e) new \<Longrightarrow> Q (Inl e) new"
    and "\<And>x new r new'. P (Inr x) new \<Longrightarrow> P' r new' \<Longrightarrow> Q r (new @ new')"
  shows "emits (thenP m n) Q"
  unfolding thenP_bindP using assms by (rule emits_bindP)

lemma emits_quiet: "quiet m \<Longrightarrow> (\<And>r. Q r []) \<Longrightarrow> emits m Q"
  by (simp add: emits_def quiet_def)

subsection \<open>Rules for sequential properties\<close>

lemma failure_simps [simp]: "failure (Inl e) = Some e" "failure (Inr x) = None"
  by (simp_all add: failure_def)

lemma sequential_only [simp]: "sequential (only E)"
  by (simp add: sequential_def only_def)

lemma sequential_fatal_last [simp]: "sequential fatal_last"
  unfolding sequential_def
proof (intro conjI allI impI)
  fix r show "fatal_last r []" by (cases r) (simp_all add: fatal_last_def)
next
  fix r new new'
  assume 1: "fatal_last None new" and 2: "fatal_last r new'"
  show "fatal_last r (new @ new')"
  proof (cases "new' = []")
    case True
    with 1 2 show ?thesis
      by (cases r; cases new rule: rev_cases) (auto simp: fatal_last_def)
  next
    case False
    with 1 2 show ?thesis
      by (cases r) (auto simp: fatal_last_def butlast_append)
  qed
qed

lemma tracesD:
  "traces m Q \<Longrightarrow> m st = (r, st') \<Longrightarrow> \<exists>new. trace st' = trace st @ new \<and> Q (failure r) new"
  unfolding traces_def by (rule emitsD)

lemma tr_bindP:
  "sequential Q \<Longrightarrow> traces m Q \<Longrightarrow> (\<And>x. traces (f x) Q) \<Longrightarrow> traces (bindP m f) Q"
  unfolding traces_def
  by (erule emits_bindP [where P' = "\<lambda>r. Q (failure r)"]) (auto simp: sequential_def)

lemma tr_thenP: "sequential Q \<Longrightarrow> traces m Q \<Longrightarrow> traces n Q \<Longrightarrow> traces (thenP m n) Q"
  unfolding thenP_bindP by (rule tr_bindP)

lemma tr_quiet: "sequential Q \<Longrightarrow> quiet m \<Longrightarrow> traces m Q"
  unfolding traces_def by (rule emits_quiet) (simp_all add: sequential_def)

lemma tr_whenP: "sequential Q \<Longrightarrow> traces m Q \<Longrightarrow> traces (whenP b m) Q"
  by (cases b) (simp_all add: traces_def emits_def whenP_def sequential_def)

lemma tr_steps_Nil: "sequential Q \<Longrightarrow> traces (steps []) Q"
  by (simp add: traces_def emits_def sequential_def)

lemma tr_steps_Cons:
  "sequential Q \<Longrightarrow> traces m Q \<Longrightarrow> traces (steps ms) Q \<Longrightarrow> traces (steps (m # ms)) Q"
  using tr_thenP [of Q m "steps ms"] by (simp add: traces_def emits_def)

lemma tr_with_python: "(\<And>py. traces (f py) Q) \<Longrightarrow> traces (with_python f) Q"
  by (simp add: traces_def emits_def with_python_def)

lemma tr_change_directory: "traces body Q \<Longrightarrow> traces (change_directory d body) Q"
  unfolding traces_def emits_def
proof
  fix st
  assume h: "\<forall>st. \<exists>new. trace (snd (body st)) = trace st @ new \<and> Q (failure (fst (body st))) new"
  obtain r s where b: "body (st\<lparr>cwd := cwd st @ d\<rparr>) = (r, s)"
    by (cases "body (st\<lparr>cwd := cwd st @ d\<rparr>)")
  from h [rule_format, of "st\<lparr>cwd := cwd st @ d\<rparr>"] b
  show "\<exists>new. trace (snd (change_directory d body st)) = trace st @ new \<and>
          Q (failure (fst (change_directory d body st))) new"
    by (simp add: change_directory_def Let_def)
qed

lemma tr_job_run:
  assumes "\<And>st. Q (failure (fst (run_method w cmd sh eoe st)))
                 [Ran (run_prefix st) cmd sh eoe (fst (run_method w cmd sh eoe st))]"
  shows "traces (job_run w cmd sh eoe) Q"
  unfolding traces_def emits_def
proof
  fix st
  obtain out disk where ex: "run_method w cmd sh eoe st = (out, disk)"
    by (cases "run_method w cmd sh eoe st")
  show "\<exists>new. trace (snd (job_run w cmd sh eoe st)) = trace st @ new \<and>
          Q (failure (fst (job_run w cmd sh eoe st))) new"
    using assms [of st] ex
    by (intro exI [of _ "[Ran (run_prefix st) cmd sh eoe out]"]) (simp add: job_run_def)
qed

lemma tr_returnP: "sequential Q \<Longrightarrow> traces (returnP x) Q"
  by (simp add: traces_def emits_def returnP_def sequential_def)

lemma tr_raiseP: "sequential Q \<Longrightarrow> traces (raiseP e) Q"
  by (simp add: traces_def emits_def raiseP_def sequential_def)

lemma tr_run_cmd:
  "sequential Q \<Longrightarrow>
   (\<And>st. Q (failure (fst (run_method w cmd False True st)))
          [Ran (run_prefix st) cmd False True (fst (run_method w cmd False True st))])
   \<Longrightarrow> traces (run_cmd w cmd) Q"
  unfolding run_cmd_def by (intro tr_thenP tr_job_run tr_returnP) simp_all

lemma tr_run_shell:
  "sequential Q \<Longrightarrow>
   (\<And>st. Q (failure (fst (run_method w cmd True True st)))
          [Ran (run_prefix st) cmd True True (fst (run_method w cmd True True st))])
   \<Longrightarrow> traces (run_shell w cmd) Q"
  unfolding run_shell_def by (intro tr_thenP tr_job_run tr_returnP) simp_all

lemma tr_call_hook: "(\<And>r. Q r [Hook h j]) \<Longrightarrow> traces (call_hook w h j) Q"
  by (auto simp: traces_def emits_def call_hook_def Let_def split: prod.splits option.splits)

lemma tr_clean_workspace:
  "sequential Q \<Longrightarrow> (\<And>p. Q None [CleanedWorkspace p]) \<Longrightarrow> traces (clean_workspace d) Q"
  by (auto simp: traces_def emits_def clean_workspace_def sequential_def split: option.splits)

lemma tr_set_trace: "Q None [SetTrace] \<Longrightarrow> traces set_trace Q"
  by (simp add: traces_def emits_def set_trace_def)

subsection \<open>Calls that leave no event\<close>

lemma quiet_simple [simp]:
  "quiet (returnP x)" "quiet (raiseP e)" "quiet (modify_fs f)" "quiet (os_path_exists p)"
  "quiet (os_makedirs p)" "quiet (os_remove p)" "quiet (os_listdir p)" "quiet (read_file p)"
  "quiet (setdefault_env k v)" "quiet (set_env k v)" "quiet (new_batch_job w)"
  "quiet (push_run prefix)" "quiet (push_python py)" "quiet (create_file p content)"
  by (simp_all add: quiet_def returnP_def raiseP_def modify_fs_def os_path_exists_def
      os_makedirs_def os_remove_def os_listdir_def read_file_def setdefault_env_def set_env_def
      new_batch_job_def push_run_def push_python_def create_file_def
      split: option.splits node.splits)

lemma only_single [simp]: "only E r [e] = E e"
  by (simp add: only_def)

lemma fatal_last_single [simp]:
  "fatal_last r [e] = (ended_by e = None \<or> ended_by e = r)"
  by (cases r) (auto simp: fatal_last_def)

lemmas tr_rules =
  tr_thenP tr_bindP tr_whenP tr_steps_Nil tr_steps_Cons tr_with_python tr_change_directory
  tr_run_cmd tr_run_shell tr_job_run tr_call_hook tr_clean_workspace tr_set_trace tr_returnP
  tr_raiseP

lemma tr_if:
  "(c \<Longrightarrow> traces m Q) \<Longrightarrow> (\<not> c \<Longrightarrow> traces n Q) \<Longrightarrow> traces (if c then m else n) Q"
  by simp

lemma tr_case_option:
  "(x = None \<Longrightarrow> traces m Q) \<Longrightarrow> (\<And>y. x = Some y \<Longrightarrow> traces (f y) Q)
   \<Longrightarrow> traces (case x of None \<Rightarrow> m | Some y \<Rightarrow> f y) Q"
  by (cases x) simp_all

lemma tr_prims:
  assumes "sequential Q"
  shows "traces (os_path_exists p) Q" "traces (os_makedirs p) Q" "traces (os_remove p) Q"
    "traces (read_file p) Q" "traces (setdefault_env k v) Q" "traces (set_env k v) Q"
    "traces (new_batch_job w) Q" "traces (push_run prefix) Q" "traces (push_python py) Q"
    "traces (create_file p content) Q"
  using assms by (simp_all add: tr_quiet)

lemma tr_activate_venv:
  assumes "sequential Q" and "\<And>r. Q r [Hook ShowEnv j]"
  shows "traces (activate_venv w j) Q"
  unfolding traces_def emits_def
proof
  fix st :: state
  obtain venv venv_python
    where v: "generated_venv_vars w (abs_string (sep w) (cwd st @ [''venv''])) = (venv, venv_python)"
    by (cases "generated_venv_vars w (abs_string (sep w) (cwd st @ [''venv'']))")
  have "traces (steps [push_run venv, push_python venv_python, call_hook w ShowEnv j]) Q"
    using assms by (intro tr_steps_Cons tr_steps_Nil tr_prims tr_call_hook)
  then show "\<exists>new. trace (snd (activate_venv w j st)) = trace st @ new \<and>
               Q (failure (fst (activate_venv w j st))) new"
    using v unfolding traces_def emits_def
    by (simp add: activate_venv_def Let_def del: steps.simps)
qed

lemmas stage_defs =
  in_workspace_def prereq_install_def enter_venv_def toolchain_update_def
  dependency_install_def manifest_fetch_def show_manifest_def source_checkout_def
  branch_override_def revision_log_def build_test_collect_def

lemmas tr_intros = tr_rules tr_if tr_case_option tr_prims tr_activate_venv

lemma main_fatal_last: "traces (main w cli) fatal_last"
proof -
  obtain a job where sel: "select_job (lower (platform_platform w)) (resolve_names cli) = (a, job)"
    by (cases "select_job (lower (platform_platform w)) (resolve_names cli)")
  show ?thesis
    unfolding main_def sel Let_def prod.case stage_defs
    by (intro tr_intros) simp_all
qed

lemmas cmd_defs =
  prereq_cmd_def dependency_cmd_def fetch_cmd_def checkout_cmd_def build_cmd_def test_cmd_def
  test_results_cmd_def pip_dependencies_def

lemma main_unfold:
  "main w cli =
     (let a = args_of_run w cli; job = snd (select_job (lower (platform_platform w)) (resolve_names cli)) in
      thenP (case job of None \<Rightarrow> returnP () | Some j \<Rightarrow> new_batch_job w)
        (if do_venv a \<and> os a = Some ''windows''
         then raiseP (SystemExit (Message ''--do-venv is not supported on windows''))
         else
           thenP (steps
             [setdefault_env ''TERM'' ''xterm-256color'',
              whenP (os a = Some ''windows'') (set_env ''ConEmuANSI'' ''ON''),
              clean_workspace (workspace a)])
             (case job of
                None \<Rightarrow> raiseP (Raised AttributeError)
              | Some j \<Rightarrow>
                  thenP (steps
                    [call_hook w Pre j,
                     call_hook w ShowEnv j,
                     prereq_install w a])
                    (change_directory [workspace a] (in_workspace w a j)))))"
  by (simp add: main_def args_of_run_def Let_def case_prod_unfold)

lemma main_stage_fail_fast: "traces (main w cli) (only (stage_fail_fast w (args_of_run w cli)))"
  unfolding main_unfold Let_def stage_defs
  by (intro tr_intros) (simp_all add: fatal_stage_cmd_def cmd_defs)

lemma steps_thenP:
  "thenP (steps (m # ms)) k = thenP m (thenP (steps ms) k)"
  "thenP (steps []) k = k"
proof -
  show "thenP (steps (m # ms)) k = thenP m (thenP (steps ms) k)"
  proof (rule ext)
    fix st
    obtain r s where ms: "m st = (r, s)" by (cases "m st")
    show "thenP (steps (m # ms)) k st = thenP m (thenP (steps ms) k) st"
      using ms by (cases r) (simp_all add: thenP_def)
  qed
  show "thenP (steps []) k = k"
    by (rule ext) (simp add: thenP_def)
qed

lemma ran_failed_ran: "ran_failed cmd e \<Longrightarrow> ran cmd e"
  by (simp add: ran_failed_def)

lemma list_ex_ran_failed: "list_ex (ran_failed cmd) new \<Longrightarrow> list_ex (ran cmd) new"
  by (auto simp: list_ex_iff dest: ran_failed_ran)

lemma qc_prefix:
  assumes m: "traces m (only (\<lambda>e. \<not> ran (fetch_cmd a) e \<and> \<not> ran (checkout_cmd a) e))"
    and k: "traces k (fetch_guards_checkout a)"
  shows "traces (thenP m k) (fetch_guards_checkout a)"
  using m k unfolding traces_def
proof (rule emits_thenP, goal_cases)
  case (1 e new)
  then show ?case
    by (auto simp: only_def fetch_guards_checkout_def list_all_iff list_ex_iff
        dest: ran_failed_ran)
next
  case (2 x new r new')
  then show ?case
    by (auto simp: only_def fetch_guards_checkout_def list_all_iff list_ex_iff
        dest: ran_failed_ran)
qed

lemma manifest_fetch_event:
  "emits (manifest_fetch w a)
     (\<lambda>r new. \<exists>p out. new = [Ran p (fetch_cmd a) False True out] \<and> failure out = failure r)"
  unfolding emits_def
proof
  fix st
  obtain out disk where ex: "run_method w (fetch_cmd a) False True st = (out, disk)"
    by (cases "run_method w (fetch_cmd a) False True st")
  show "\<exists>new. trace (snd (manifest_fetch w a st)) = trace st @ new \<and>
          (\<exists>p out. new = [Ran p (fetch_cmd a) False True out] \<and>
                   failure out = failure (fst (manifest_fetch w a st)))"
    using ex
    by (intro exI [of _ "[Ran (run_prefix st) (fetch_cmd a) False True out]"])
       (cases out; simp add: manifest_fetch_def run_cmd_def thenP_def job_run_def returnP_def)
qed

lemma qc_fetch:
  assumes k: "traces k (only (\<lambda>e. \<not> ran (fetch_cmd a) e))"
  shows "traces (thenP (manifest_fetch w a) k) (fetch_guards_checkout a)"
  using manifest_fetch_event k unfolding traces_def
proof (rule emits_thenP, goal_cases)
  case (1 e new)
  then show ?case
    by (auto simp: fetch_guards_checkout_def fetch_cmd_def checkout_cmd_def)
next
  case (2 x new r new')
  then show ?case
    by (auto simp: only_def fetch_guards_checkout_def ran_failed_def list_all_iff list_ex_iff)
qed

lemma qc_raiseP: "traces (raiseP e) (fetch_guards_checkout a)"
  by (simp add: traces_def emits_def raiseP_def fetch_guards_checkout_def)

lemma main_fetch_guards_checkout:
  "traces (main w cli) (fetch_guards_checkout (args_of_run w cli))"
  unfolding main_unfold Let_def in_workspace_def steps_thenP
  unfolding prereq_install_def enter_venv_def toolchain_update_def dependency_install_def
    show_manifest_def source_checkout_def branch_override_def revision_log_def
    build_test_collect_def
  by (intro qc_fetch qc_prefix qc_raiseP tr_intros) (simp_all add: cmd_defs)

lemma batch_job_run_as_specified:
  "as_specified (Ran p cmd sh eoe (fst (batch_job_run ex cmd sh eoe st)))"
  by (cases "ex (run_prefix st @ cmd) sh st") (simp add: batch_job_run_def)

lemma main_as_specified:
  assumes "run_method w = batch_job_run ex"
  shows "traces (main w cli) (only as_specified)"
  unfolding main_unfold Let_def stage_defs
  by (intro tr_intros) (simp_all add: assms batch_job_run_as_specified)

lemma ended_in_fatal_last:
  assumes fl: "fatal_last (failure r) new" and ev: "e \<in> set new" and ff: "ended_by e = Some a"
  shows "r = Inl a \<and> (\<exists>before. new = before @ [e] \<and> list_all (\<lambda>e. ended_by e = None) before)"
proof (cases r)
  case (Inr x)
  with fl ev ff show ?thesis by (auto simp: fatal_last_def list_all_iff)
next
  case (Inl b)
  with fl have clean: "list_all (\<lambda>e. ended_by e = None) (butlast new)"
    and last: "new = [] \<or> ended_by (last new) = None \<or> ended_by (last new) = Some b"
    by (simp_all add: fatal_last_def)
  from ev have ne: "new \<noteq> []" by auto
  have "e \<notin> set (butlast new)" using clean ff by (auto simp: list_all_iff)
  moreover from ev have "e \<in> set (butlast new @ [last new])"
    by (simp only: append_butlast_last_id [OF ne])
  ultimately have e: "e = last new" by simp
  with last ne ff have "b = a" by simp
  moreover have "new = butlast new @ [e]"
    unfolding e by (simp only: append_butlast_last_id [OF ne])
  ultimately show ?thesis using Inl clean by blast
qed

text \<open>
  C6. With \<^verbatim>\<open>job.run\<close> as the specification has it: when the command of the
  prerequisite install, the dependency install, the manifest fetch or the source checkout
  returns a non-zero exit code in a run of \<^verbatim>\<open>main\<close>, the call was made with exit-on-error,
  the run ends with that code, and the call is the last event of the run: nothing runs
  after it, and no call before it ended the process. When the command is the manifest
  fetch, the checkout command does not occur in the run at all.
\<close>

theorem fatal_stage_failure_ends_run:
  assumes spec: "run_method w = batch_job_run ex"
    and run: "main w cli st = (r, st')"
    and new: "trace st' = trace st @ new"
    and ev: "Ran p cmd sh eoe outcome \<in> set new"
    and stage: "fatal_stage_cmd w (args_of_run w cli) cmd"
    and code: "exit_code outcome = Some c"
    and failed: "c \<noteq> 0"
  shows "r = Inl (SystemExit (Code c)) \<and> eoe \<and>
         (\<exists>before. new = before @ [Ran p cmd sh eoe outcome] \<and>
                   list_all (\<lambda>e. ended_by e = None) before) \<and>
         (cmd = fetch_cmd (args_of_run w cli) \<longrightarrow>
            \<not> list_ex (ran (checkout_cmd (args_of_run w cli))) new)"
proof -
  from tracesD [OF main_fatal_last run] new have fl: "fatal_last (failure r) new" by auto
  from tracesD [OF main_stage_fail_fast run] new
  have "list_all (stage_fail_fast w (args_of_run w cli)) new" by (auto simp: only_def)
  with ev stage have eoe: eoe by (auto simp: list_all_iff)
  from tracesD [OF main_as_specified [OF spec] run] new
  have "list_all as_specified new" by (auto simp: only_def)
  with ev have "as_specified (Ran p cmd sh eoe outcome)" by (auto simp: list_all_iff)
  with eoe code failed have out: "outcome = Inl (SystemExit (Code c))"
    by (cases outcome) auto
  then have ended: "ended_by (Ran p cmd sh eoe outcome) = Some (SystemExit (Code c))" by simp
  from tracesD [OF main_fetch_guards_checkout run] new
  have "fetch_guards_checkout (args_of_run w cli) (failure r) new" by auto
  moreover have "list_ex (ran_failed cmd) new"
    using ev ended by (force simp: list_ex_iff ran_failed_def)
  ultimately have "cmd = fetch_cmd (args_of_run w cli) \<longrightarrow>
      \<not> list_ex (ran (checkout_cmd (args_of_run w cli))) new"
    by (auto simp: fetch_guards_checkout_def)
  with ended_in_fatal_last [OF fl ev ended] eoe show ?thesis by simp
qed

lemma fetch_failing_world_simps:
  "platform_platform fetch_failing_world = ''Linux-5.4.0-42-generic-x86_64-with-Ubuntu-20.04-focal''"
  "sys_executable fetch_failing_world = ''python3''"
  "sep fetch_failing_world = CHR ''/''"
  "run_method fetch_failing_world cmd shell eoe st =
     (if ''curl'' \<in> set (run_prefix st @ cmd) \<and> eoe then Inl (SystemExit (Code 22))
      else Inr (if ''curl'' \<in> set (run_prefix st @ cmd) then 22 else 0), fs st)"
  "hook fetch_failing_world h j st = (None, st)"
  "generated_venv_vars fetch_failing_world p = ([''venv''], p)"
  by (simp_all add: fetch_failing_world_def batch_job_run_def)

lemma linux_host_args:
  "args_of_run fetch_failing_world plain_cli = resolve_names (plain_cli\<lparr>os := Some ''linux''\<rparr>)"
  by (simp add: args_of_run_def fetch_failing_world_simps select_defs plain_cli_def)

theorem fatal_stage_failure_ends_run_witness:
  "Ran [] (fetch_cmd (args_of_run fetch_failing_world plain_cli)) False True
       (Inl (SystemExit (Code 22)))
     \<in> set (trace (snd (main fetch_failing_world plain_cli start))) \<and>
   fatal_stage_cmd fetch_failing_world (args_of_run fetch_failing_world plain_cli)
     (fetch_cmd (args_of_run fetch_failing_world plain_cli)) \<and>
   fst (main fetch_failing_world plain_cli start) = Inl (SystemExit (Code 22)) \<and>
   \<not> list_ex (ran (checkout_cmd (args_of_run fetch_failing_world plain_cli)))
       (trace (snd (main fetch_failing_world plain_cli start)))"
proof -
  let ?w = fetch_failing_world
  let ?a = "args_of_run ?w plain_cli"
  have spec: "run_method ?w =
      batch_job_run (\<lambda>cmd shell st. (if ''curl'' \<in> set cmd then 22 else 0, fs st))"
    by (simp add: fetch_failing_world_def)
  have run: "main ?w plain_cli start = (fst (main ?w plain_cli start), snd (main ?w plain_cli start))"
    by simp
  have new: "trace (snd (main ?w plain_cli start)) = trace start @ trace (snd (main ?w plain_cli start))"
    by (simp add: start_def)
  have ev: "Ran [] (fetch_cmd ?a) False True (Inl (SystemExit (Code 22)))
      \<in> set (trace (snd (main ?w plain_cli start)))"
    unfolding linux_host_args
    by (simp add: main_defs select_defs prog_defs os_defs job_defs fetch_failing_world_simps
        plain_cli_def start_def Let_def pip_dependencies_def quoted_def)
  have stage: "fatal_stage_cmd ?w ?a (fetch_cmd ?a)"
    by (simp add: fatal_stage_cmd_def)
  from fatal_stage_failure_ends_run [OF spec run new ev stage, of 22] ev stage
  show ?thesis by simp
qed















end
